theory Spec2Isabelle
  imports Main
begin

section \<open>Values shared by the host engine and the wrapper\<close>

text \<open>
  The library wraps the browser's IndexedDB. Keys are \<open>IDBValidKey\<close>s; the two kinds
  modelled are numbers and strings, which is enough to tell JavaScript's falsy keys
  (\<open>0\<close> and the empty string) from the truthy ones. Numbers that are options of an
  iteration run (\<open>offset\<close>, \<open>limit\<close>) are integers.
\<close>

datatype key = KNum int | KStr string

text \<open>JavaScript truthiness, as used by \<open>&&\<close>, \<open>if (...)\<close> and \<open>Boolean(...)\<close>.\<close>

fun truthy_key :: "key \<Rightarrow> bool" where
  "truthy_key (KNum n) = (n \<noteq> 0)"
| "truthy_key (KStr s) = (s \<noteq> [])"

definition truthy_number :: "int \<Rightarrow> bool" where
  "truthy_number n = (n \<noteq> 0)"

text \<open>The host's key order: every number sorts before every string; strings compare
  code unit by code unit.\<close>

fun str_less :: "string \<Rightarrow> string \<Rightarrow> bool" where
  "str_less [] [] = False"
| "str_less [] (y # ys) = True"
| "str_less (x # xs) [] = False"
| "str_less (x # xs) (y # ys) =
     ((of_char x :: nat) < of_char y \<or> (x = y \<and> str_less xs ys))"

fun key_less :: "key \<Rightarrow> key \<Rightarrow> bool" where
  "key_less (KNum a) (KNum b) = (a < b)"
| "key_less (KNum a) (KStr b) = True"
| "key_less (KStr a) (KNum b) = False"
| "key_less (KStr a) (KStr b) = str_less a b"

datatype error =
    Error string
  | TypeError
  | DOMException string
  | UpgradeAttemptBlockedError string
  | NoResultError

datatype 'a promise = Pending | Resolved 'a | Rejected error

text \<open>How a promise handed to the library (the user's callback, the transaction
  action) settles.\<close>

datatype 'a settled = Fulfils 'a | Rejects error

section \<open>The host cursor\<close>

record 'v entry =
  ekey :: key
  eprimaryKey :: key
  evalue :: 'v

datatype direction = Next | NextUnique | Prev | PrevUnique

record keyrange =
  lower :: "key option"
  upper :: "key option"
  lowerOpen :: bool
  upperOpen :: bool

definition in_range :: "keyrange \<Rightarrow> key \<Rightarrow> bool" where
  "in_range r k =
     ((case lower r of None \<Rightarrow> True
        | Some l \<Rightarrow> key_less l k \<or> (\<not> lowerOpen r \<and> l = k)) \<and>
      (case upper r of None \<Rightarrow> True
        | Some u \<Rightarrow> key_less k u \<or> (\<not> upperOpen r \<and> u = k)))"

text \<open>
  A cursor provider is an object store or an index (\<open>CursorProvider\<close> in
  \<open>cursor.ts\<close>). Its records are held in ascending (key, primary key) order.
  \<open>fault = Some (n, e)\<close> makes the request number \<open>n\<close> of a run (the open request is
  number 0) end in an error event carrying \<open>e\<close>, as happens when the transaction is
  aborted under a pending request; \<open>None\<close> is a host on which every request succeeds.
\<close>

record 'v source =
  entries :: "'v entry list"
  is_index :: bool
  fault :: "(nat \<times> error) option"

datatype host_call =
    OpenKeyCursor "keyrange option" "direction option"
  | OpenCursor "keyrange option" "direction option"
  | Continue "key option"
  | ContinuePrimaryKey key key
  | Advance int

definition is_prev :: "direction \<Rightarrow> bool" where
  "is_prev d = (d = Prev \<or> d = PrevUnique)"

definition is_unique :: "direction \<Rightarrow> bool" where
  "is_unique d = (d = NextUnique \<or> d = PrevUnique)"

fun uniq_keys :: "'v entry list \<Rightarrow> 'v entry list" where
  "uniq_keys [] = []"
| "uniq_keys [a] = [a]"
| "uniq_keys (a # b # es) =
     (if ekey a = ekey b then uniq_keys (a # es) else a # uniq_keys (b # es))"

definition the_direction :: "direction option \<Rightarrow> direction" where
  "the_direction d = (case d of None \<Rightarrow> Next | Some x \<Rightarrow> x)"

text \<open>The positions a freshly opened cursor will visit, first position first. The empty
  list is the host's \<open>null\<close> cursor.\<close>

definition open_positions ::
  "'v source \<Rightarrow> keyrange option \<Rightarrow> direction option \<Rightarrow> 'v entry list" where
  "open_positions src q d =
     (let es = filter (\<lambda>e. case q of None \<Rightarrow> True | Some r \<Rightarrow> in_range r (ekey e))
                 (entries src);
          us = (if is_unique (the_direction d) then uniq_keys es else es)
      in if is_prev (the_direction d) then rev us else us)"

text \<open>\<open>before d a b\<close>: key \<open>a\<close> is met strictly before key \<open>b\<close> by a cursor of
  direction \<open>d\<close>.\<close>

definition before :: "direction \<Rightarrow> key \<Rightarrow> key \<Rightarrow> bool" where
  "before d a b = (if is_prev d then key_less b a else key_less a b)"

text \<open>
  The cursor operations of the host, on a cursor whose current and remaining positions
  are the given list. \<open>Inl\<close> is the exception the call throws; \<open>Inr\<close> the positions the
  cursor holds when the request succeeds.
  \<^item> \<open>continue()\<close> moves one position on; \<open>continue(key)\<close> moves to the first position at
    or past \<open>key\<close> and throws a \<open>DataError\<close> unless \<open>key\<close> lies past the current one.
  \<^item> \<open>advance(count)\<close> throws a \<open>TypeError\<close> unless \<open>count\<close> is positive, and moves
    \<open>count\<close> positions on.
  \<^item> \<open>continuePrimaryKey(key, primaryKey)\<close> throws an \<open>InvalidAccessError\<close> unless the
    source is an index and the direction is \<open>next\<close> or \<open>prev\<close>, and a \<open>DataError\<close>
    unless the pair lies past the current position.
\<close>

fun cursor_exec ::
  "bool \<Rightarrow> direction \<Rightarrow> host_call \<Rightarrow> 'v entry list \<Rightarrow> error + 'v entry list" where
  "cursor_exec ix d c [] = Inl (DOMException ''InvalidStateError'')"
| "cursor_exec ix d (Continue None) (e # es) = Inr es"
| "cursor_exec ix d (Continue (Some k)) (e # es) =
     (if \<not> before d (ekey e) k then Inl (DOMException ''DataError'')
      else Inr (dropWhile (\<lambda>x. before d (ekey x) k) es))"
| "cursor_exec ix d (Advance n) (e # es) =
     (if n \<le> 0 then Inl TypeError else Inr (drop (nat n - 1) es))"
| "cursor_exec ix d (ContinuePrimaryKey k pk) (e # es) =
     (if \<not> ix \<or> is_unique d then Inl (DOMException ''InvalidAccessError'')
      else if before d k (ekey e) \<or> (k = ekey e \<and> \<not> before d (eprimaryKey e) pk)
        then Inl (DOMException ''DataError'')
      else Inr (dropWhile
             (\<lambda>x. before d (ekey x) k \<or> (ekey x = k \<and> before d (eprimaryKey x) pk)) es))"
| "cursor_exec ix d (OpenKeyCursor q dir) (e # es) = Inl (DOMException ''InvalidStateError'')"
| "cursor_exec ix d (OpenCursor q dir) (e # es) = Inl (DOMException ''InvalidStateError'')"

fun fires :: "(nat \<times> error) option \<Rightarrow> error option" where
  "fires None = None"
| "fires (Some (0, e)) = Some e"
| "fires (Some (Suc n, e)) = None"

fun tick :: "(nat \<times> error) option \<Rightarrow> (nat \<times> error) option" where
  "tick None = None"
| "tick (Some (0, e)) = None"
| "tick (Some (Suc n, e)) = Some (n, e)"

section \<open>The cursor iteration engine (\<open>cursor.ts\<close>)\<close>

record from_option =
  from_key :: key
  from_primaryKey :: "key option"

record options =
  opt_from :: "from_option option"
  opt_limit :: "int option"
  opt_offset :: "int option"
  opt_query :: "keyrange option"
  opt_direction :: "direction option"

text \<open>\<open>options?.offset\<close> and its siblings: \<open>None\<close> is JavaScript's \<open>undefined\<close>.\<close>

definition get_offset :: "options option \<Rightarrow> int option" where
  "get_offset opts = Option.bind opts opt_offset"

definition get_limit :: "options option \<Rightarrow> int option" where
  "get_limit opts = Option.bind opts opt_limit"

definition get_from_key :: "options option \<Rightarrow> key option" where
  "get_from_key opts = map_option from_key (Option.bind opts opt_from)"

definition get_from_primaryKey :: "options option \<Rightarrow> key option" where
  "get_from_primaryKey opts = Option.bind (Option.bind opts opt_from) from_primaryKey"

definition get_query :: "options option \<Rightarrow> keyrange option" where
  "get_query opts = Option.bind opts opt_query"

definition get_direction :: "options option \<Rightarrow> direction option" where
  "get_direction opts = Option.bind opts opt_direction"

definition truthy_num_opt :: "int option \<Rightarrow> bool" where
  "truthy_num_opt x = (case x of None \<Rightarrow> False | Some n \<Rightarrow> truthy_number n)"

definition truthy_key_opt :: "key option \<Rightarrow> bool" where
  "truthy_key_opt x = (case x of None \<Rightarrow> False | Some k \<Rightarrow> truthy_key k)"

text \<open>What the user's callback receives: \<open>CursorValue1\<close> for a key cursor (no value),
  \<open>CursorValue2\<close> for a value cursor.\<close>

record 'v cursor_value =
  cv_key :: key
  cv_primaryKey :: key
  cv_value :: "'v option"

text \<open>
  The observable events of a run, in the order in which they happen: a call into the
  host, the user's callback being invoked with a position, a call of the promise's
  \<open>resolve()\<close> or \<open>reject(e)\<close>, and an exception thrown by a host call. Such an
  exception leaves the \<open>onsuccess\<close> handler (or the \<open>then\<close> callback) that made the call
  and settles nothing: the promise's executor has returned long before.
\<close>

datatype 'v event =
    Call host_call
  | Deliver "'v cursor_value"
  | Resolve
  | Reject error
  | Throw error

text \<open>The value a callback's promise fulfils with: \<open>None\<close> is \<open>undefined\<close> (\<open>void\<close>).\<close>

type_synonym ret = "bool option"

definition truthy_ret :: "ret \<Rightarrow> bool" where
  "truthy_ret r = (case r of None \<Rightarrow> False | Some b \<Rightarrow> b)"

record iter_state =
  offsetNotApplied :: bool
  fromIndexNotApplied :: bool
  curCount :: int

text \<open>What one run of the \<open>rq.onsuccess\<close> handler does before it returns: issue a seek on
  the cursor, invoke the action (and call \<open>resolve()\<close> at once when the flag is set), or
  call \<open>resolve()\<close> because the cursor is \<open>null\<close>.\<close>

datatype reaction = Seek host_call | Visit bool | Finish

text \<open>The call of the seeking step: \<open>cursor.continuePrimaryKey(from.key, from.primaryKey)\<close>
  when \<open>options?.from?.primaryKey\<close> is truthy, \<open>cursor.continue(options?.from?.key)\<close>
  otherwise.\<close>

definition from_seek :: "options option \<Rightarrow> host_call" where
  "from_seek opts =
     (case get_from_primaryKey opts of
        None \<Rightarrow> Continue (get_from_key opts)
      | Some pk \<Rightarrow>
          if truthy_key pk
          then (case get_from_key opts of
                  Some k \<Rightarrow> ContinuePrimaryKey k pk
                | None \<Rightarrow> Continue None)
          else Continue (get_from_key opts))"

definition onsuccess ::
  "options option \<Rightarrow> iter_state \<Rightarrow> 'v entry option \<Rightarrow> iter_state \<times> reaction" where
  "onsuccess opts st cursor =
     (case cursor of
        None \<Rightarrow> (st, Finish)
      | Some c \<Rightarrow>
          if fromIndexNotApplied st then
            (st\<lparr>fromIndexNotApplied := False\<rparr>, Seek (from_seek opts))
          else if offsetNotApplied st then
            (st\<lparr>offsetNotApplied := False\<rparr>,
             Seek (Advance (case get_offset opts of Some n \<Rightarrow> n - 1 | None \<Rightarrow> 0)))
          else
            (st\<lparr>curCount := curCount st + 1\<rparr>,
             Visit (case get_limit opts of
                      None \<Rightarrow> False
                    | Some l \<Rightarrow> truthy_number l \<and> curCount st + 1 \<ge> l)))"

definition cursor_of :: "'v entry list \<Rightarrow> 'v entry option" where
  "cursor_of cur = (case cur of [] \<Rightarrow> None | c # _ \<Rightarrow> Some c)"

lemma cursor_exec_shorter:
  "cursor_exec ix d c cur = Inr cur' \<Longrightarrow> length cur' < length cur"
proof (cases cur)
  case Nil
  assume "cursor_exec ix d c cur = Inr cur'"
  with Nil show ?thesis by simp
next
  case (Cons e es)
  assume h: "cursor_exec ix d c cur = Inr cur'"
  have dw: "\<And>P. length (dropWhile P es) \<le> length es"
    by (rule length_dropWhile_le)
  show ?thesis
  proof (cases c)
    case (Continue ko)
    with h Cons dw show ?thesis
      by (cases ko) (auto simp: le_imp_less_Suc split: if_splits)
  next
    case (Advance n)
    with h Cons show ?thesis by (auto split: if_splits)
  next
    case (ContinuePrimaryKey k pk)
    with h Cons dw show ?thesis
      by (auto simp: le_imp_less_Suc split: if_splits)
  next
    case (OpenKeyCursor q dir)
    with h Cons show ?thesis by simp
  next
    case (OpenCursor q dir)
    with h Cons show ?thesis by simp
  qed
qed

text \<open>
  The run from one success event of the cursor request on: the handler reacts, the host
  executes the call the handler (or the action's \<open>then\<close> callback) issued, and the next
  event arrives. \<open>action\<close> is the engine-level action: it yields the events it causes
  (the delivery to the user's callback) and how its promise settles. An action whose
  promise rejects has no rejection handler in the source, so nothing follows it.
  The \<open>then\<close> callback is the one of the revision that knows the early break
  (\<open>if (done) { resolve(); return }\<close> before \<open>cursor.continue()\<close>); the revision without
  it always continues, which is this one on a falsy \<open>done\<close>.
\<close>

function pump ::
  "bool \<Rightarrow> direction \<Rightarrow> options option \<Rightarrow> ('v entry \<Rightarrow> 'v event list \<times> ret settled) \<Rightarrow>
   iter_state \<Rightarrow> (nat \<times> error) option \<Rightarrow> 'v entry list \<Rightarrow> 'v event list" where
  "pump ix d opts action st flt cur =
     (case onsuccess opts st (cursor_of cur) of
        (st', Finish) \<Rightarrow> [Resolve]
      | (st', Seek call) \<Rightarrow>
          Call call #
          (case cursor_exec ix d call cur of
             Inl err \<Rightarrow> [Throw err]
           | Inr cur' \<Rightarrow>
               (case fires flt of
                  Some e \<Rightarrow> [Reject e]
                | None \<Rightarrow> pump ix d opts action st' (tick flt) cur'))
      | (st', Visit lim) \<Rightarrow>
          (case cur of
             [] \<Rightarrow> []
           | c # cs \<Rightarrow>
               fst (action c) @ (if lim then [Resolve] else []) @
               (case snd (action c) of
                  Rejects e \<Rightarrow> []
                | Fulfils done \<Rightarrow>
                    if truthy_ret done then [Resolve]
                    else Call (Continue None) #
                      (case cursor_exec ix d (Continue None) cur of
                         Inl err \<Rightarrow> [Throw err]
                       | Inr cur' \<Rightarrow>
                           (case fires flt of
                              Some e \<Rightarrow> [Reject e]
                            | None \<Rightarrow> pump ix d opts action st' (tick flt) cur')))))"
  by pat_completeness auto
termination
  by (relation "measure (\<lambda>(ix, d, opts, action, st, flt, cur). length cur)")
     (auto dest: cursor_exec_shorter)

declare pump.simps [simp del]

text \<open>\<open>#iterateCursor\<close>. \<open>cursorRequester\<close> is the open call the requester thunk makes.
  \<open>Inl\<close> is an exception thrown synchronously, before the promise exists and before any
  host call; \<open>Inr\<close> carries the events of the run behind the returned promise.\<close>

definition request_positions :: "'v source \<Rightarrow> host_call \<Rightarrow> 'v entry list" where
  "request_positions src c =
     (case c of
        OpenKeyCursor q d \<Rightarrow> open_positions src q d
      | OpenCursor q d \<Rightarrow> open_positions src q d
      | _ \<Rightarrow> [])"

definition request_direction :: "host_call \<Rightarrow> direction" where
  "request_direction c =
     (case c of
        OpenKeyCursor q d \<Rightarrow> the_direction d
      | OpenCursor q d \<Rightarrow> the_direction d
      | _ \<Rightarrow> Next)"

definition initial_state :: "options option \<Rightarrow> iter_state" where
  "initial_state opts =
     \<lparr>offsetNotApplied = truthy_num_opt (get_offset opts),
      fromIndexNotApplied = truthy_key_opt (get_from_key opts),
      curCount = 0\<rparr>"

definition iterateCursor ::
  "host_call \<Rightarrow> ('v entry \<Rightarrow> 'v event list \<times> ret settled) \<Rightarrow> options option \<Rightarrow>
   'v source \<Rightarrow> error + 'v event list" where
  "iterateCursor cursorRequester action opts src =
     (if truthy_num_opt (get_offset opts) \<and>
         (case get_offset opts of Some n \<Rightarrow> n < 1 | None \<Rightarrow> False)
      then Inl (Error ''offset must be greater than 0'')
      else if truthy_num_opt (get_limit opts) \<and>
         (case get_limit opts of Some n \<Rightarrow> n < 1 | None \<Rightarrow> False)
      then Inl (Error ''limit must be greater than 0'')
      else Inr (Call cursorRequester #
             (case fires (fault src) of
                Some e \<Rightarrow> [Reject e]
              | None \<Rightarrow>
                  pump (is_index src) (request_direction cursorRequester) opts action
                    (initial_state opts) (tick (fault src))
                    (request_positions src cursorRequester))))"

text \<open>
  \<open>iterateKeys\<close> and \<open>iterateValues\<close>. Each hands the engine an \<open>async\<close> arrow function
  whose body is the single statement \<open>await action({...})\<close>: it invokes the user's callback
  with the position and, having no \<open>return\<close>, fulfils with \<open>undefined\<close> whatever the
  callback's promise fulfilled with; it rejects when the callback's promise rejects.
  The \<open>update\<close> and \<open>delete\<close> capabilities a value cursor hands to the callback are not
  part of the model: a callback is taken by the position it is given and by how its
  promise settles.
\<close>

definition key_action ::
  "('v cursor_value \<Rightarrow> ret settled) \<Rightarrow> 'v entry \<Rightarrow> 'v event list \<times> ret settled" where
  "key_action action cursor =
     (let v = \<lparr>cv_key = ekey cursor, cv_primaryKey = eprimaryKey cursor, cv_value = None\<rparr>
      in ([Deliver v],
          case action v of Fulfils r \<Rightarrow> Fulfils None | Rejects e \<Rightarrow> Rejects e))"

definition value_action ::
  "('v cursor_value \<Rightarrow> ret settled) \<Rightarrow> 'v entry \<Rightarrow> 'v event list \<times> ret settled" where
  "value_action action cursor =
     (let v = \<lparr>cv_key = ekey cursor, cv_primaryKey = eprimaryKey cursor,
                cv_value = Some (evalue cursor)\<rparr>
      in ([Deliver v],
          case action v of Fulfils r \<Rightarrow> Fulfils None | Rejects e \<Rightarrow> Rejects e))"

definition iterateKeys ::
  "('v cursor_value \<Rightarrow> ret settled) \<Rightarrow> options option \<Rightarrow> 'v source \<Rightarrow>
   error + 'v event list" where
  "iterateKeys action opts src =
     iterateCursor (OpenKeyCursor (get_query opts) (get_direction opts))
       (key_action action) opts src"

definition iterateValues ::
  "('v cursor_value \<Rightarrow> ret settled) \<Rightarrow> options option \<Rightarrow> 'v source \<Rightarrow>
   error + 'v event list" where
  "iterateValues action opts src =
     iterateCursor (OpenCursor (get_query opts) (get_direction opts))
       (value_action action) opts src"

subsection \<open>Reading a run\<close>

text \<open>The state of the returned promise: the first \<open>resolve()\<close> or \<open>reject(e)\<close> settles
  it, later ones do nothing.\<close>

fun promise_of :: "'v event list \<Rightarrow> unit promise" where
  "promise_of [] = Pending"
| "promise_of (Resolve # es) = Resolved ()"
| "promise_of (Reject e # es) = Rejected e"
| "promise_of (Call c # es) = promise_of es"
| "promise_of (Deliver v # es) = promise_of es"
| "promise_of (Throw e # es) = promise_of es"

text \<open>The events that follow the settlement of the promise.\<close>

fun after_settled :: "'v event list \<Rightarrow> 'v event list" where
  "after_settled [] = []"
| "after_settled (Resolve # es) = es"
| "after_settled (Reject e # es) = es"
| "after_settled (Call c # es) = after_settled es"
| "after_settled (Deliver v # es) = after_settled es"
| "after_settled (Throw e # es) = after_settled es"

fun host_calls :: "'v event list \<Rightarrow> host_call list" where
  "host_calls [] = []"
| "host_calls (Call c # es) = c # host_calls es"
| "host_calls (Resolve # es) = host_calls es"
| "host_calls (Reject e # es) = host_calls es"
| "host_calls (Deliver v # es) = host_calls es"
| "host_calls (Throw e # es) = host_calls es"

fun delivered :: "'v event list \<Rightarrow> key list" where
  "delivered [] = []"
| "delivered (Deliver v # es) = cv_key v # delivered es"
| "delivered (Call c # es) = delivered es"
| "delivered (Resolve # es) = delivered es"
| "delivered (Reject e # es) = delivered es"
| "delivered (Throw e # es) = delivered es"

text \<open>The store of the spec's examples: keys 1 to 5, each record its own primary key.\<close>

definition store_of :: "int list \<Rightarrow> unit source" where
  "store_of ks =
     \<lparr>entries = map (\<lambda>k. \<lparr>ekey = KNum k, eprimaryKey = KNum k, evalue = ()\<rparr>) ks,
      is_index = False, fault = None\<rparr>"

definition store5 :: "unit source" where
  "store5 = store_of [1, 2, 3, 4, 5]"

definition no_options :: options where
  "no_options =
     \<lparr>opt_from = None, opt_limit = None, opt_offset = None, opt_query = None,
      opt_direction = None\<rparr>"

text \<open>A callback that never asks to stop, and one that returns \<open>true\<close> at one key.\<close>

definition plain_callback :: "'v cursor_value \<Rightarrow> ret settled" where
  "plain_callback v = Fulfils None"

definition stop_at :: "key \<Rightarrow> 'v cursor_value \<Rightarrow> ret settled" where
  "stop_at k v = (if cv_key v = k then Fulfils (Some True) else Fulfils None)"

text \<open>Reading the outcome of a call of \<open>iterateKeys\<close> or \<open>iterateValues\<close>.\<close>

definition thrown :: "error + 'v event list \<Rightarrow> error option" where
  "thrown r = (case r of Inl e \<Rightarrow> Some e | Inr tr \<Rightarrow> None)"

definition run_events :: "error + 'v event list \<Rightarrow> 'v event list" where
  "run_events r = (case r of Inl e \<Rightarrow> [] | Inr tr \<Rightarrow> tr)"

definition first_delivered :: "error + 'v event list \<Rightarrow> key option" where
  "first_delivered r = (case delivered (run_events r) of [] \<Rightarrow> None | k # ks \<Rightarrow> Some k)"

section \<open>Store and index handles (\<open>dbActions.ts\<close>)\<close>

text \<open>
  A host request either throws when it is made, or ends in an error event, or in a
  success event with a result. \<open>dbPromise\<close> (\<open>utils.ts\<close>) installs the two handlers on a
  request that was made: the promise rejects with \<open>rq.error\<close> or resolves with
  \<open>rq.result\<close>. An exception thrown while the request is made leaves the wrapper method
  before \<open>dbPromise\<close> is reached.
\<close>

datatype 'a request = Threw error | Failed error | Succeeded 'a

definition dbPromise :: "'a request \<Rightarrow> error + 'a promise" where
  "dbPromise rq =
     (case rq of
        Threw e \<Rightarrow> Inl e
      | Failed e \<Rightarrow> Inr (Rejected e)
      | Succeeded x \<Rightarrow> Inr (Resolved x))"

text \<open>The results of the host's bulk reads are untyped at run time: a list of keys and a
  list of stored values are different things, whatever type the wrapper declares.\<close>

datatype 'v reply = Keys "key list" | Values "'v list"

datatype query = QKey key | QRange keyrange

definition matches :: "query option \<Rightarrow> key \<Rightarrow> bool" where
  "matches q k =
     (case q of
        None \<Rightarrow> True
      | Some (QKey x) \<Rightarrow> x = k
      | Some (QRange r) \<Rightarrow> in_range r k)"

text \<open>The host's \<open>count\<close> argument: absent or zero reads everything; a negative number is
  refused with a \<open>TypeError\<close>.\<close>

definition host_bulk :: "'v source \<Rightarrow> int option \<Rightarrow> 'a list \<Rightarrow> ('a list \<Rightarrow> 'r) \<Rightarrow> 'r request" where
  "host_bulk src count xs wrap =
     (case count of
        None \<Rightarrow> (case fires (fault src) of Some e \<Rightarrow> Failed e | None \<Rightarrow> Succeeded (wrap xs))
      | Some n \<Rightarrow>
          if n < 0 then Threw TypeError
          else (case fires (fault src) of
                  Some e \<Rightarrow> Failed e
                | None \<Rightarrow> Succeeded (wrap (if n = 0 then xs else take (nat n) xs))))"

definition selected :: "'v source \<Rightarrow> query option \<Rightarrow> 'v entry list" where
  "selected src q = filter (\<lambda>e. matches q (ekey e)) (entries src)"

text \<open>\<open>IDBObjectStore.getAll\<close>, \<open>IDBObjectStore.getAllKeys\<close>, \<open>IDBIndex.getAll\<close> and
  \<open>IDBIndex.getAllKeys\<close>: the values, or the primary keys, of the records the query
  selects, in the order of the store or of the index.\<close>

definition IDBObjectStore_getAll :: "'v source \<Rightarrow> query option \<Rightarrow> int option \<Rightarrow> 'v reply request" where
  "IDBObjectStore_getAll src q count = host_bulk src count (map evalue (selected src q)) Values"

definition IDBObjectStore_getAllKeys :: "'v source \<Rightarrow> query option \<Rightarrow> int option \<Rightarrow> 'v reply request" where
  "IDBObjectStore_getAllKeys src q count =
     host_bulk src count (map eprimaryKey (selected src q)) Keys"

definition IDBIndex_getAll :: "'v source \<Rightarrow> query option \<Rightarrow> int option \<Rightarrow> 'v reply request" where
  "IDBIndex_getAll src q count = host_bulk src count (map evalue (selected src q)) Values"

definition IDBIndex_getAllKeys :: "'v source \<Rightarrow> query option \<Rightarrow> int option \<Rightarrow> 'v reply request" where
  "IDBIndex_getAllKeys src q count =
     host_bulk src count (map eprimaryKey (selected src q)) Keys"

text \<open>The wrapper's methods, as \<open>dbActions.ts\<close> writes them.\<close>

definition ObjectStore_getAll ::
  "'v source \<Rightarrow> query option \<Rightarrow> int option \<Rightarrow> error + 'v reply promise" where
  "ObjectStore_getAll objectStore q count = dbPromise (IDBObjectStore_getAll objectStore q count)"

definition ObjectStore_getAllPrimaryKeys ::
  "'v source \<Rightarrow> query option \<Rightarrow> int option \<Rightarrow> error + 'v reply promise" where
  "ObjectStore_getAllPrimaryKeys objectStore q count =
     dbPromise (IDBObjectStore_getAllKeys objectStore q count)"

definition Index_getAll ::
  "'v source \<Rightarrow> query option \<Rightarrow> int option \<Rightarrow> error + 'v reply promise" where
  "Index_getAll index q count = dbPromise (IDBIndex_getAll index q count)"

definition Index_getAllPrimaryKeys ::
  "'v source \<Rightarrow> query option \<Rightarrow> int option \<Rightarrow> error + 'v reply promise" where
  "Index_getAllPrimaryKeys index q count = dbPromise (IDBIndex_getAll index q count)"

text \<open>The store of the README's to-do example, holding two tasks, and its name index.\<close>

definition task_store :: "string source" where
  "task_store =
     \<lparr>entries =
        [\<lparr>ekey = KNum 1, eprimaryKey = KNum 1, evalue = ''{id: 1, name: foo}''\<rparr>,
         \<lparr>ekey = KNum 2, eprimaryKey = KNum 2, evalue = ''{id: 2, name: bar}''\<rparr>],
      is_index = False, fault = None\<rparr>"

definition name_index :: "string source" where
  "name_index =
     \<lparr>entries =
        [\<lparr>ekey = KStr ''bar'', eprimaryKey = KNum 2, evalue = ''{id: 2, name: bar}''\<rparr>,
         \<lparr>ekey = KStr ''foo'', eprimaryKey = KNum 1, evalue = ''{id: 1, name: foo}''\<rparr>],
      is_index = True, fault = None\<rparr>"

section \<open>Transactions (\<open>Database.transaction\<close> in \<open>dbDeclarations.ts\<close>)\<close>

datatype mode = ReadOnly | ReadWrite | VersionChange

record objectStoreDef =
  name :: string

record database =
  objectStoreNames :: "string list"

text \<open>The host's \<open>IDBDatabase.transaction\<close>: an exception for a mode that cannot be
  asked for, an empty scope, or a store the database does not have.\<close>

definition IDBDatabase_transaction :: "database \<Rightarrow> string list \<Rightarrow> mode \<Rightarrow> error option" where
  "IDBDatabase_transaction db names m =
     (if m = VersionChange then Some TypeError
      else if names = [] then Some (DOMException ''InvalidAccessError'')
      else if \<not> set names \<subseteq> set (objectStoreNames db) then Some (DOMException ''NotFoundError'')
      else None)"

text \<open>
  What happens around the wrapper once the transaction exists. The handler passed to
  \<open>then\<close> runs because the action's promise fulfilled, the one passed to \<open>catch\<close> runs
  because it rejected, or the host fires \<open>complete\<close>. Besides, the action holds the
  \<open>Transaction\<close> handle and may call its \<open>abort()\<close> or \<open>commit()\<close> (\<open>dbActions.ts\<close>), and
  the host may abort the transaction on its own (a failed request, a full disk); the
  wrapper installs no handler for the \<open>abort\<close> and \<open>error\<close> events of the transaction.
  The order of these events is the environment's choice; a run of the wrapper is its
  reaction to a list of them.
\<close>

datatype 'a tx_event =
    ActionFulfilled 'a
  | ActionRejected error
  | Complete
  | ActionAborts
  | ActionCommits
  | HostAborts

datatype 'a tx_effect =
    DbTransaction "string list" mode
  | Abort
  | HandleAbort
  | HandleCommit
  | ResolveWith "'a option"
  | RejectWith error
  | Throws error

record 'a tx_state =
  actionCompleted :: bool
  result :: "'a option"

definition completed_early :: error where
  "completed_early = Error ''Transaction completed before action function completed''"

definition oncomplete :: "'a tx_state \<Rightarrow> 'a tx_effect list" where
  "oncomplete st =
     (if \<not> actionCompleted st then [RejectWith completed_early]
      else [ResolveWith (result st)])"

text \<open>
  The host's own state of the transaction. \<open>IDBTransaction.abort()\<close> and \<open>commit()\<close> throw
  an \<open>InvalidStateError\<close> unless the transaction is still live, that is neither
  committing nor finished (committed or aborted).
\<close>

datatype host_tx = Live | Committing | Finished

definition IDBTransaction_abort :: "host_tx \<Rightarrow> error + host_tx" where
  "IDBTransaction_abort h =
     (if h = Live then Inr Finished else Inl (DOMException ''InvalidStateError''))"

definition IDBTransaction_commit :: "host_tx \<Rightarrow> error + host_tx" where
  "IDBTransaction_commit h =
     (if h = Live then Inr Committing else Inl (DOMException ''InvalidStateError''))"

text \<open>
  The \<open>catch\<close> handler is \<open>transaction.abort(); reject(e)\<close>: when \<open>abort()\<close> throws,
  \<open>reject(e)\<close> is not reached. \<open>Transaction.abort\<close> and \<open>Transaction.commit\<close> of the handle
  pass the call on to the host; an exception they throw is the action's to deal with.
\<close>

fun tx_run :: "'a tx_state \<Rightarrow> host_tx \<Rightarrow> 'a tx_event list \<Rightarrow> 'a tx_effect list" where
  "tx_run st h [] = []"
| "tx_run st h (Complete # evs) = oncomplete st @ tx_run st Finished evs"
| "tx_run st h (ActionFulfilled out # evs) =
     tx_run (st\<lparr>actionCompleted := True, result := Some out\<rparr>) h evs"
| "tx_run st h (ActionRejected e # evs) =
     Abort #
     (case IDBTransaction_abort h of
        Inl err \<Rightarrow> Throws err # tx_run st h evs
      | Inr h' \<Rightarrow> RejectWith e # tx_run st h' evs)"
| "tx_run st h (ActionAborts # evs) =
     HandleAbort #
     (case IDBTransaction_abort h of
        Inl err \<Rightarrow> Throws err # tx_run st h evs
      | Inr h' \<Rightarrow> tx_run st h' evs)"
| "tx_run st h (ActionCommits # evs) =
     HandleCommit #
     (case IDBTransaction_commit h of
        Inl err \<Rightarrow> Throws err # tx_run st h evs
      | Inr h' \<Rightarrow> tx_run st h' evs)"
| "tx_run st h (HostAborts # evs) = tx_run st Finished evs"

text \<open>The host's state of the transaction after a list of events.\<close>

fun tx_status :: "host_tx \<Rightarrow> 'a tx_event list \<Rightarrow> host_tx" where
  "tx_status h [] = h"
| "tx_status h (Complete # evs) = tx_status Finished evs"
| "tx_status h (ActionFulfilled out # evs) = tx_status h evs"
| "tx_status h (ActionRejected e # evs) =
     tx_status (case IDBTransaction_abort h of Inl err \<Rightarrow> h | Inr h' \<Rightarrow> h') evs"
| "tx_status h (ActionAborts # evs) =
     tx_status (case IDBTransaction_abort h of Inl err \<Rightarrow> h | Inr h' \<Rightarrow> h') evs"
| "tx_status h (ActionCommits # evs) =
     tx_status (case IDBTransaction_commit h of Inl err \<Rightarrow> h | Inr h' \<Rightarrow> h') evs"
| "tx_status h (HostAborts # evs) = tx_status Finished evs"

definition transaction ::
  "database \<Rightarrow> objectStoreDef list \<Rightarrow> mode \<Rightarrow> 'a tx_event list \<Rightarrow> 'a tx_effect list" where
  "transaction db scope m evs =
     DbTransaction (map name scope) m #
     (case IDBDatabase_transaction db (map name scope) m of
        Some e \<Rightarrow> [RejectWith e]
      | None \<Rightarrow> tx_run \<lparr>actionCompleted = False, result = None\<rparr> Live evs)"

text \<open>The promise \<open>transaction()\<close> returned: settled by the first \<open>resolve\<close> or \<open>reject\<close>.\<close>

fun tx_promise :: "'a tx_effect list \<Rightarrow> 'a option promise" where
  "tx_promise [] = Pending"
| "tx_promise (ResolveWith r # es) = Resolved r"
| "tx_promise (RejectWith e # es) = Rejected e"
| "tx_promise (DbTransaction ns m # es) = tx_promise es"
| "tx_promise (Abort # es) = tx_promise es"
| "tx_promise (HandleAbort # es) = tx_promise es"
| "tx_promise (HandleCommit # es) = tx_promise es"
| "tx_promise (Throws e # es) = tx_promise es"

text \<open>The events by which the action's promise settles.\<close>

definition is_settlement :: "'a tx_event \<Rightarrow> bool" where
  "is_settlement ev =
     (case ev of ActionFulfilled out \<Rightarrow> True | ActionRejected e \<Rightarrow> True | _ \<Rightarrow> False)"

definition todo_db :: database where
  "todo_db = \<lparr>objectStoreNames = [''todo-tasks'']\<rparr>"

definition todo_store :: objectStoreDef where
  "todo_store = \<lparr>name = ''todo-tasks''\<rparr>"

section \<open>Opening a database (\<open>DatabaseDef.open\<close>)\<close>

text \<open>
  The events the host fires on an open request, and what the handlers installed by
  \<open>open()\<close> do with each. The revision that documents \<open>UpgradeAttemptBlockedError\<close>
  (release 3.1.2 of the change log) installs four handlers; the earlier revision kept
  beside it installs no \<open>onblocked\<close> handler, so a blocked event passes unnoticed there.
\<close>

datatype open_event = Blocked | UpgradeNeeded int "int option" | Success | ErrorEvent error

datatype open_effect =
    IndexedDbOpen string int
  | Upgrader int "int option"
  | OpenResolve
  | OpenReject error

fun open_handlers :: "open_event \<Rightarrow> open_effect list" where
  "open_handlers (UpgradeNeeded oldVersion newVersion) = [Upgrader oldVersion newVersion]"
| "open_handlers Success = [OpenResolve]"
| "open_handlers (ErrorEvent e) = [OpenReject e]"
| "open_handlers Blocked = [OpenReject (UpgradeAttemptBlockedError ''up'')]"

fun open_handlers_earlier :: "open_event \<Rightarrow> open_effect list" where
  "open_handlers_earlier (UpgradeNeeded oldVersion newVersion) = [Upgrader oldVersion newVersion]"
| "open_handlers_earlier Success = [OpenResolve]"
| "open_handlers_earlier (ErrorEvent e) = [OpenReject e]"
| "open_handlers_earlier Blocked = []"

text \<open>The host refuses a version below 1 with a \<open>TypeError\<close>, thrown inside the promise's
  executor, which turns it into a rejection.\<close>

definition open_with ::
  "(open_event \<Rightarrow> open_effect list) \<Rightarrow> string \<Rightarrow> int \<Rightarrow> open_event list \<Rightarrow> open_effect list" where
  "open_with handlers nm version evs =
     IndexedDbOpen nm version #
     (if version < 1 then [OpenReject TypeError] else concat (map handlers evs))"

definition DatabaseDef_open :: "string \<Rightarrow> int \<Rightarrow> open_event list \<Rightarrow> open_effect list" where
  "DatabaseDef_open = open_with open_handlers"

definition DatabaseDef_open_earlier :: "string \<Rightarrow> int \<Rightarrow> open_event list \<Rightarrow> open_effect list" where
  "DatabaseDef_open_earlier = open_with open_handlers_earlier"

fun open_promise :: "open_effect list \<Rightarrow> unit promise" where
  "open_promise [] = Pending"
| "open_promise (OpenResolve # es) = Resolved ()"
| "open_promise (OpenReject e # es) = Rejected e"
| "open_promise (IndexedDbOpen nm v # es) = open_promise es"
| "open_promise (Upgrader a b # es) = open_promise es"

definition settles_open :: "open_event \<Rightarrow> bool" where
  "settles_open ev = (case ev of Success \<Rightarrow> True | ErrorEvent e \<Rightarrow> True | _ \<Rightarrow> False)"

section \<open>Properties of the cursor iteration engine\<close>

subsection \<open>Runs that differ only in how an option is written\<close>

text \<open>Two option records on which the \<open>onsuccess\<close> handler reacts alike, in every state
  a run can reach, give the same run.\<close>

lemma pump_opts_cong:
  assumes same: "\<And>s (c :: 'v entry option). P s \<Longrightarrow> onsuccess opts s c = onsuccess opts' s c"
      and keep: "\<And>s (c :: 'v entry option) s' r. P s \<Longrightarrow> onsuccess opts s c = (s', r) \<Longrightarrow> P s'"
      and init: "P st"
  shows "pump ix d opts action st flt (cur :: 'v entry list) = pump ix d opts' action st flt cur"
  using init
proof (induction "length cur" arbitrary: st flt cur rule: less_induct)
  case less
  obtain s' r where r0: "onsuccess opts st (cursor_of cur) = (s', r)"
    by (cases "onsuccess opts st (cursor_of cur)")
  have r1: "onsuccess opts' st (cursor_of cur) = (s', r)"
    using same [OF less.prems] r0 by simp
  have P': "P s'" using keep [OF less.prems r0] .
  have step: "\<And>call cur'. cursor_exec ix d call cur = Inr cur' \<Longrightarrow>
      pump ix d opts action s' (tick flt) cur' = pump ix d opts' action s' (tick flt) cur'"
    using less.hyps [OF cursor_exec_shorter P'] by blast
  have tail: "\<And>c cs. cur = c # cs \<Longrightarrow>
      pump ix d opts action s' (tick flt) cs = pump ix d opts' action s' (tick flt) cs"
    using step [of "Continue None"] by simp
  show ?case
    unfolding pump.simps [of ix d opts action st flt cur]
      pump.simps [of ix d opts' action st flt cur] r0 r1
    by (cases r)
       (auto simp: step tail split: sum.splits option.splits list.splits settled.splits)
qed

lemma onsuccess_keeps_from_applied:
  "onsuccess opts st c = (s', r) \<Longrightarrow> \<not> fromIndexNotApplied st \<Longrightarrow> \<not> fromIndexNotApplied s'"
  by (auto simp: onsuccess_def split: option.splits if_splits)

lemma onsuccess_without_from:
  assumes "\<not> fromIndexNotApplied st" "get_offset opts = get_offset opts'"
    "get_limit opts = get_limit opts'"
  shows "onsuccess opts st c = onsuccess opts' st c"
  using assms by (cases c) (simp_all add: onsuccess_def)

lemma iterateCursor_falsy_from_key:
  assumes "opt_from ops = Some f" "\<not> truthy_key (from_key f)"
  shows "iterateCursor rq action (Some ops) src =
         iterateCursor rq action (Some (ops\<lparr>opt_from := None\<rparr>)) src"
proof -
  let ?o' = "Some (ops\<lparr>opt_from := None\<rparr>)"
  have off: "get_offset (Some ops) = get_offset ?o'" and lim: "get_limit (Some ops) = get_limit ?o'"
    by (simp_all add: get_offset_def get_limit_def)
  have ini: "initial_state (Some ops) = initial_state ?o'"
    using assms by (simp add: initial_state_def get_offset_def get_from_key_def truthy_key_opt_def)
  have nf: "\<not> fromIndexNotApplied (initial_state ?o')"
    by (simp add: initial_state_def get_from_key_def truthy_key_opt_def)
  have "pump ix d (Some ops) action (initial_state ?o') flt cur =
        pump ix d ?o' action (initial_state ?o') flt cur" for ix d flt cur
    by (rule pump_opts_cong [where P = "\<lambda>s. \<not> fromIndexNotApplied s"])
       (auto intro: onsuccess_without_from [OF _ off lim] dest: onsuccess_keeps_from_applied simp: nf)
  then show ?thesis
    by (simp add: iterateCursor_def off lim ini split: option.splits)
qed

lemma onsuccess_falsy_primaryKey:
  assumes "opt_from ops = Some f" "from_primaryKey f = Some pk" "\<not> truthy_key pk"
  shows "onsuccess (Some ops) st c =
         onsuccess (Some (ops\<lparr>opt_from := Some (f\<lparr>from_primaryKey := None\<rparr>)\<rparr>)) st c"
  using assms
  by (cases c)
     (simp_all add: onsuccess_def from_seek_def get_from_primaryKey_def get_from_key_def
      get_offset_def get_limit_def)

lemma iterateCursor_falsy_primaryKey:
  assumes "opt_from ops = Some f" "from_primaryKey f = Some pk" "\<not> truthy_key pk"
  shows "iterateCursor rq action (Some ops) src =
         iterateCursor rq action (Some (ops\<lparr>opt_from := Some (f\<lparr>from_primaryKey := None\<rparr>)\<rparr>)) src"
proof -
  let ?o' = "Some (ops\<lparr>opt_from := Some (f\<lparr>from_primaryKey := None\<rparr>)\<rparr>)"
  have off: "get_offset (Some ops) = get_offset ?o'" and lim: "get_limit (Some ops) = get_limit ?o'"
    by (simp_all add: get_offset_def get_limit_def)
  have ini: "initial_state (Some ops) = initial_state ?o'"
    using assms by (simp add: initial_state_def get_offset_def get_from_key_def truthy_key_opt_def)
  have "pump ix d (Some ops) action st flt cur = pump ix d ?o' action st flt cur" for ix d st flt cur
    by (rule pump_opts_cong [where P = "\<lambda>s. True"])
       (auto simp: onsuccess_falsy_primaryKey [OF assms])
  then show ?thesis
    by (simp add: iterateCursor_def off lim ini split: option.splits)
qed

subsection \<open>The calls a run makes\<close>

text \<open>Whatever the options, the source and the callback, a run calls the host only to
  open the cursor, to seek to \<open>from\<close> (when \<open>from.key\<close> is truthy), to advance by
  \<open>offset - 1\<close> and to continue without a key.\<close>

lemma host_calls_append: "host_calls (xs @ ys) = host_calls xs @ host_calls ys"
  by (induction xs rule: host_calls.induct) simp_all

lemma pump_calls:
  assumes quiet: "\<And>c. host_calls (fst (action c)) = []"
  shows "set (host_calls (pump ix d opts action st flt cur)) \<subseteq>
           (if fromIndexNotApplied st then {from_seek opts} else {}) \<union>
           {Continue None, Advance (case get_offset opts of Some n \<Rightarrow> n - 1 | None \<Rightarrow> 0)}"
proof (induction "length cur" arbitrary: st flt cur rule: less_induct)
  case less
  let ?A = "{Continue None, Advance (case get_offset opts of Some n \<Rightarrow> n - 1 | None \<Rightarrow> 0)}"
  let ?S = "\<lambda>s. (if fromIndexNotApplied s then {from_seek opts} else {}) \<union> ?A"
  obtain s' r where r0: "onsuccess opts st (cursor_of cur) = (s', r)"
    by (cases "onsuccess opts st (cursor_of cur)")
  have mono: "?S s' \<subseteq> ?S st"
    using r0 by (auto simp: onsuccess_def split: option.splits if_splits)
  have kind: "call \<in> ?S st" if "r = Seek call" for call
    using r0 that by (auto simp: onsuccess_def split: option.splits if_splits)
  have step: "set (host_calls (pump ix d opts action s' (tick flt) cur')) \<subseteq> ?S st"
    if "cursor_exec ix d call cur = Inr cur'" for call cur'
    using less.hyps [OF cursor_exec_shorter [OF that], of s' "tick flt"] mono by blast
  have tail: "set (host_calls (pump ix d opts action s' (tick flt) cs)) \<subseteq> ?S st"
    if "cur = c # cs" for c cs
    using step [of "Continue None" cs] that by simp
  show ?case
  proof (cases r)
    case (Seek call)
    from kind [OF Seek] have k: "call \<in> ?S st" .
    show ?thesis
      unfolding pump.simps [of ix d opts action st flt cur] r0 Seek
      using k step [of call]
      by (auto split: sum.splits option.splits)
  next
    case (Visit lim)
    show ?thesis
      unfolding pump.simps [of ix d opts action st flt cur] r0 Visit
      using tail
      by (auto simp: host_calls_append quiet split: list.splits settled.splits option.splits)
  next
    case Finish
    show ?thesis
      unfolding pump.simps [of ix d opts action st flt cur] r0 Finish
      by simp
  qed
qed

lemma key_action_quiet: "host_calls (fst (key_action action c)) = []"
  by (simp add: key_action_def Let_def)

lemma value_action_quiet: "host_calls (fst (value_action action c)) = []"
  by (simp add: value_action_def Let_def)

lemma iterateCursor_calls:
  assumes quiet: "\<And>c. host_calls (fst (action c)) = []"
  shows "set (host_calls (run_events (iterateCursor rq action opts src))) \<subseteq>
           {rq, Continue None, Advance (case get_offset opts of Some n \<Rightarrow> n - 1 | None \<Rightarrow> 0)} \<union>
           (if truthy_key_opt (get_from_key opts) then {from_seek opts} else {})"
proof -
  let ?C = "{rq, Continue None, Advance (case get_offset opts of Some n \<Rightarrow> n - 1 | None \<Rightarrow> 0)} \<union>
           (if truthy_key_opt (get_from_key opts) then {from_seek opts} else {})"
  have p: "set (host_calls (pump ix d opts action (initial_state opts) flt cur)) \<subseteq> ?C"
    for ix d flt cur
    using pump_calls [of action ix d opts "initial_state opts" flt cur, OF quiet]
    by (auto simp: initial_state_def split: if_splits)
  show ?thesis
  proof (cases "iterateCursor rq action opts src")
    case (Inl e)
    then show ?thesis by (simp add: run_events_def)
  next
    case (Inr tr)
    then have "tr = [Call rq, Reject (the (fires (fault src)))] \<or>
       tr = Call rq # pump (is_index src) (request_direction rq) opts action
              (initial_state opts) (tick (fault src)) (request_positions src rq)"
      by (auto simp: iterateCursor_def split: if_splits option.splits)
    then show ?thesis
      using p [of "is_index src" "request_direction rq" "tick (fault src)"
          "request_positions src rq"] Inr
      by (auto simp: run_events_def)
  qed
qed

subsection \<open>The first steps of a run\<close>

lemma iterateCursor_started:
  assumes "thrown (iterateCursor rq action opts src) = None" "fires (fault src) = None"
  shows "iterateCursor rq action opts src =
           Inr (Call rq # pump (is_index src) (request_direction rq) opts action
                  (initial_state opts) (tick (fault src)) (request_positions src rq))"
  using assms by (auto simp: iterateCursor_def thrown_def split: if_splits)

lemma pump_visit_first:
  assumes "\<not> fromIndexNotApplied st" "\<not> offsetNotApplied st"
  shows "\<exists>rest. pump ix d opts action st flt (c # cs) = fst (action c) @ rest"
  using assms by (subst pump.simps) (simp add: onsuccess_def cursor_of_def)

lemma pump_from_first:
  assumes "fromIndexNotApplied st"
  shows "\<exists>rest. pump ix d opts action st flt (c # cs) = Call (from_seek opts) # rest"
  using assms by (subst pump.simps) (simp add: onsuccess_def cursor_of_def)

lemma pump_Nil: "pump ix d opts action st flt [] = [Resolve]"
  by (subst pump.simps) (simp add: onsuccess_def cursor_of_def)

subsection \<open>The seek to \<open>from\<close>\<close>

lemma from_seek_falsy_primaryKey:
  assumes "opt_from ops = Some f" "from_primaryKey f = Some pk" "\<not> truthy_key pk"
  shows "from_seek (Some ops) = Continue (Some (from_key f))"
  using assms by (simp add: from_seek_def get_from_primaryKey_def get_from_key_def)

lemma iterateCursor_first_delivery:
  assumes "\<not> truthy_key_opt (get_from_key opts)" "\<not> truthy_num_opt (get_offset opts)"
    "thrown (iterateCursor rq action opts src) = None" "fires (fault src) = None"
    "request_positions src rq = c # cs"
  shows "\<exists>rest. iterateCursor rq action opts src = Inr (Call rq # fst (action c) @ rest)"
proof -
  have st: "\<not> fromIndexNotApplied (initial_state opts)" "\<not> offsetNotApplied (initial_state opts)"
    using assms(1,2) by (simp_all add: initial_state_def)
  from pump_visit_first [OF st] obtain rest where
    "pump (is_index src) (request_direction rq) opts action (initial_state opts)
       (tick (fault src)) (c # cs) = fst (action c) @ rest"
    by blast
  then show ?thesis
    by (simp add: iterateCursor_started [OF assms(3,4)] assms(5))
qed

lemma iterateCursor_first_seek:
  assumes "truthy_key_opt (get_from_key opts)"
    "thrown (iterateCursor rq action opts src) = None" "fires (fault src) = None"
    "request_positions src rq = c # cs"
  shows "\<exists>rest. iterateCursor rq action opts src = Inr (Call rq # Call (from_seek opts) # rest)"
proof -
  have st: "fromIndexNotApplied (initial_state opts)"
    using assms(1) by (simp add: initial_state_def)
  from pump_from_first [OF st] obtain rest where
    "pump (is_index src) (request_direction rq) opts action (initial_state opts)
       (tick (fault src)) (c # cs) = Call (from_seek opts) # rest"
    by blast
  then show ?thesis
    by (simp add: iterateCursor_started [OF assms(2,3)] assms(4))
qed

text \<open>
  C10, as stated, says of every run whose \<open>from.primaryKey\<close> is falsy that the key-only
  seek \<open>cursor.continue(from.key)\<close> is used. With \<open>from = {key: 0, primaryKey: 0}\<close> on
  the name index the key is falsy too and no seek is made at all: the run opens the
  cursor and continues twice without a key.
\<close>

theorem falsy_primaryKey_no_seek_counterexample:
  "host_calls (run_events (iterateKeys plain_callback
     (Some (no_options\<lparr>opt_from := Some \<lparr>from_key = KNum 0, from_primaryKey = Some (KNum 0)\<rparr>\<rparr>))
     name_index)) =
     [OpenKeyCursor None None, Continue None, Continue None]"
  by code_simp

text \<open>
  C10, amended. The seek to \<open>from\<close> is gated on truthiness, not on presence, for key
  iteration and for value iteration alike.
  \<^item> A run whose \<open>from.key\<close> is a falsy key (the number 0, the empty string) is, event for
    event, the run with no \<open>from\<close> at all; it never calls \<open>cursor.continue(key)\<close> with a
    key nor \<open>cursor.continuePrimaryKey\<close>; and when its options pass the validation, no
    truthy \<open>offset\<close> is given and the cursor opens on a record, the first thing after the
    open call is the delivery of that first record to the callback.
  \<^item> A run whose \<open>from.primaryKey\<close> is falsy (the number 0, say) is, event for event, the
    run whose \<open>from\<close> names no primary key, and it never calls
    \<open>cursor.continuePrimaryKey\<close>; when moreover \<open>from.key\<close> is truthy, the options pass
    the validation and the cursor opens on a record, the first thing after the open call
    is the key-only seek \<open>cursor.continue(from.key)\<close>.
\<close>

theorem from_seek_truthiness:
  "(opt_from ops = Some f \<and> \<not> truthy_key (from_key f) \<longrightarrow>
      iterateKeys action (Some ops) src = iterateKeys action (Some (ops\<lparr>opt_from := None\<rparr>)) src \<and>
      iterateValues action (Some ops) src = iterateValues action (Some (ops\<lparr>opt_from := None\<rparr>)) src \<and>
      (\<forall>k. Continue (Some k) \<notin> set (host_calls (run_events (iterateKeys action (Some ops) src)))) \<and>
      (\<forall>k p. ContinuePrimaryKey k p \<notin> set (host_calls (run_events (iterateKeys action (Some ops) src)))) \<and>
      (\<forall>k. Continue (Some k) \<notin> set (host_calls (run_events (iterateValues action (Some ops) src)))) \<and>
      (\<forall>k p. ContinuePrimaryKey k p \<notin> set (host_calls (run_events (iterateValues action (Some ops) src)))) \<and>
      (\<not> truthy_num_opt (opt_offset ops) \<and>
       thrown (iterateKeys action (Some ops) src) = None \<and>
       thrown (iterateValues action (Some ops) src) = None \<and>
       fires (fault src) = None \<and>
       open_positions src (opt_query ops) (opt_direction ops) = c # cs \<longrightarrow>
         (\<exists>rest. iterateKeys action (Some ops) src =
            Inr (Call (OpenKeyCursor (opt_query ops) (opt_direction ops)) #
                 Deliver \<lparr>cv_key = ekey c, cv_primaryKey = eprimaryKey c, cv_value = None\<rparr> #
                 rest)) \<and>
         (\<exists>rest. iterateValues action (Some ops) src =
            Inr (Call (OpenCursor (opt_query ops) (opt_direction ops)) #
                 Deliver \<lparr>cv_key = ekey c, cv_primaryKey = eprimaryKey c,
                          cv_value = Some (evalue c)\<rparr> #
                 rest))))
   \<and>
   (opt_from ops = Some f \<and> from_primaryKey f = Some pk \<and> \<not> truthy_key pk \<longrightarrow>
      iterateKeys action (Some ops) src =
        iterateKeys action (Some (ops\<lparr>opt_from := Some (f\<lparr>from_primaryKey := None\<rparr>)\<rparr>)) src \<and>
      iterateValues action (Some ops) src =
        iterateValues action (Some (ops\<lparr>opt_from := Some (f\<lparr>from_primaryKey := None\<rparr>)\<rparr>)) src \<and>
      (\<forall>k p. ContinuePrimaryKey k p \<notin> set (host_calls (run_events (iterateKeys action (Some ops) src)))) \<and>
      (\<forall>k p. ContinuePrimaryKey k p \<notin> set (host_calls (run_events (iterateValues action (Some ops) src)))) \<and>
      (truthy_key (from_key f) \<and>
       thrown (iterateKeys action (Some ops) src) = None \<and>
       thrown (iterateValues action (Some ops) src) = None \<and>
       fires (fault src) = None \<and>
       open_positions src (opt_query ops) (opt_direction ops) = c # cs \<longrightarrow>
         (\<exists>rest. iterateKeys action (Some ops) src =
            Inr (Call (OpenKeyCursor (opt_query ops) (opt_direction ops)) #
                 Call (Continue (Some (from_key f))) # rest)) \<and>
         (\<exists>rest. iterateValues action (Some ops) src =
            Inr (Call (OpenCursor (opt_query ops) (opt_direction ops)) #
                 Call (Continue (Some (from_key f))) # rest))))"
proof -
  have qd: "get_query (Some ops) = opt_query ops" "get_direction (Some ops) = opt_direction ops"
    "get_offset (Some ops) = opt_offset ops"
    by (simp_all add: get_query_def get_direction_def get_offset_def)
  let ?K = "iterateCursor (OpenKeyCursor (opt_query ops) (opt_direction ops))
              (key_action action) (Some ops) src"
  let ?V = "iterateCursor (OpenCursor (opt_query ops) (opt_direction ops))
              (value_action action) (Some ops) src"
  have K: "iterateKeys action (Some ops) src = ?K" by (simp add: iterateKeys_def qd)
  have V: "iterateValues action (Some ops) src = ?V" by (simp add: iterateValues_def qd)
  have cK: "set (host_calls (run_events ?K)) \<subseteq>
      {OpenKeyCursor (opt_query ops) (opt_direction ops), Continue None,
       Advance (case get_offset (Some ops) of Some n \<Rightarrow> n - 1 | None \<Rightarrow> 0)} \<union>
      (if truthy_key_opt (get_from_key (Some ops)) then {from_seek (Some ops)} else {})"
    by (rule iterateCursor_calls) (rule key_action_quiet)
  have cV: "set (host_calls (run_events ?V)) \<subseteq>
      {OpenCursor (opt_query ops) (opt_direction ops), Continue None,
       Advance (case get_offset (Some ops) of Some n \<Rightarrow> n - 1 | None \<Rightarrow> 0)} \<union>
      (if truthy_key_opt (get_from_key (Some ops)) then {from_seek (Some ops)} else {})"
    by (rule iterateCursor_calls) (rule value_action_quiet)
  have A: "iterateKeys action (Some ops) src = iterateKeys action (Some (ops\<lparr>opt_from := None\<rparr>)) src \<and>
      iterateValues action (Some ops) src = iterateValues action (Some (ops\<lparr>opt_from := None\<rparr>)) src \<and>
      (\<forall>k. Continue (Some k) \<notin> set (host_calls (run_events (iterateKeys action (Some ops) src)))) \<and>
      (\<forall>k p. ContinuePrimaryKey k p \<notin> set (host_calls (run_events (iterateKeys action (Some ops) src)))) \<and>
      (\<forall>k. Continue (Some k) \<notin> set (host_calls (run_events (iterateValues action (Some ops) src)))) \<and>
      (\<forall>k p. ContinuePrimaryKey k p \<notin> set (host_calls (run_events (iterateValues action (Some ops) src)))) \<and>
      (\<not> truthy_num_opt (opt_offset ops) \<and>
       thrown (iterateKeys action (Some ops) src) = None \<and>
       thrown (iterateValues action (Some ops) src) = None \<and>
       fires (fault src) = None \<and>
       open_positions src (opt_query ops) (opt_direction ops) = c # cs \<longrightarrow>
         (\<exists>rest. iterateKeys action (Some ops) src =
            Inr (Call (OpenKeyCursor (opt_query ops) (opt_direction ops)) #
                 Deliver \<lparr>cv_key = ekey c, cv_primaryKey = eprimaryKey c, cv_value = None\<rparr> #
                 rest)) \<and>
         (\<exists>rest. iterateValues action (Some ops) src =
            Inr (Call (OpenCursor (opt_query ops) (opt_direction ops)) #
                 Deliver \<lparr>cv_key = ekey c, cv_primaryKey = eprimaryKey c,
                          cv_value = Some (evalue c)\<rparr> #
                 rest)))"
    if h: "opt_from ops = Some f \<and> \<not> truthy_key (from_key f)"
  proof -
    have nk: "\<not> truthy_key_opt (get_from_key (Some ops))"
      using h by (simp add: get_from_key_def truthy_key_opt_def)
    have e: "\<And>rq act. iterateCursor rq act (Some ops) src =
        iterateCursor rq act (Some (ops\<lparr>opt_from := None\<rparr>)) src"
      using h iterateCursor_falsy_from_key by blast
    have e1: "iterateKeys action (Some ops) src =
        iterateKeys action (Some (ops\<lparr>opt_from := None\<rparr>)) src"
      by (simp add: iterateKeys_def e get_query_def get_direction_def)
    have e2: "iterateValues action (Some ops) src =
        iterateValues action (Some (ops\<lparr>opt_from := None\<rparr>)) src"
      by (simp add: iterateValues_def e get_query_def get_direction_def)
    have s1: "(\<forall>k. Continue (Some k) \<notin> set (host_calls (run_events ?K))) \<and>
        (\<forall>k p. ContinuePrimaryKey k p \<notin> set (host_calls (run_events ?K)))"
      using cK nk by auto
    have s2: "(\<forall>k. Continue (Some k) \<notin> set (host_calls (run_events ?V))) \<and>
        (\<forall>k p. ContinuePrimaryKey k p \<notin> set (host_calls (run_events ?V)))"
      using cV nk by auto
    have d: "(\<exists>rest. ?K =
            Inr (Call (OpenKeyCursor (opt_query ops) (opt_direction ops)) #
                 Deliver \<lparr>cv_key = ekey c, cv_primaryKey = eprimaryKey c, cv_value = None\<rparr> #
                 rest)) \<and>
         (\<exists>rest. ?V =
            Inr (Call (OpenCursor (opt_query ops) (opt_direction ops)) #
                 Deliver \<lparr>cv_key = ekey c, cv_primaryKey = eprimaryKey c,
                          cv_value = Some (evalue c)\<rparr> #
                 rest))"
      if g: "\<not> truthy_num_opt (opt_offset ops)" "thrown ?K = None" "thrown ?V = None"
        "fires (fault src) = None"
        "open_positions src (opt_query ops) (opt_direction ops) = c # cs"
    proof -
      have no: "\<not> truthy_num_opt (get_offset (Some ops))" using g(1) by (simp add: qd)
      have "\<exists>rest. ?K = Inr (Call (OpenKeyCursor (opt_query ops) (opt_direction ops)) #
          fst (key_action action c) @ rest)"
        by (rule iterateCursor_first_delivery [OF nk no g(2) g(4)])
           (simp add: request_positions_def g(5))
      moreover have "\<exists>rest. ?V = Inr (Call (OpenCursor (opt_query ops) (opt_direction ops)) #
          fst (value_action action c) @ rest)"
        by (rule iterateCursor_first_delivery [OF nk no g(3) g(4)])
           (simp add: request_positions_def g(5))
      ultimately show ?thesis
        by (simp add: key_action_def value_action_def Let_def)
    qed
    show ?thesis
      using e1 e2 s1 s2 d unfolding K V by blast
  qed
  have B: "iterateKeys action (Some ops) src =
        iterateKeys action (Some (ops\<lparr>opt_from := Some (f\<lparr>from_primaryKey := None\<rparr>)\<rparr>)) src \<and>
      iterateValues action (Some ops) src =
        iterateValues action (Some (ops\<lparr>opt_from := Some (f\<lparr>from_primaryKey := None\<rparr>)\<rparr>)) src \<and>
      (\<forall>k p. ContinuePrimaryKey k p \<notin> set (host_calls (run_events (iterateKeys action (Some ops) src)))) \<and>
      (\<forall>k p. ContinuePrimaryKey k p \<notin> set (host_calls (run_events (iterateValues action (Some ops) src)))) \<and>
      (truthy_key (from_key f) \<and>
       thrown (iterateKeys action (Some ops) src) = None \<and>
       thrown (iterateValues action (Some ops) src) = None \<and>
       fires (fault src) = None \<and>
       open_positions src (opt_query ops) (opt_direction ops) = c # cs \<longrightarrow>
         (\<exists>rest. iterateKeys action (Some ops) src =
            Inr (Call (OpenKeyCursor (opt_query ops) (opt_direction ops)) #
                 Call (Continue (Some (from_key f))) # rest)) \<and>
         (\<exists>rest. iterateValues action (Some ops) src =
            Inr (Call (OpenCursor (opt_query ops) (opt_direction ops)) #
                 Call (Continue (Some (from_key f))) # rest)))"
    if h: "opt_from ops = Some f \<and> from_primaryKey f = Some pk \<and> \<not> truthy_key pk"
  proof -
    have fs: "from_seek (Some ops) = Continue (Some (from_key f))"
      using h from_seek_falsy_primaryKey by blast
    have e: "\<And>rq act. iterateCursor rq act (Some ops) src =
        iterateCursor rq act (Some (ops\<lparr>opt_from := Some (f\<lparr>from_primaryKey := None\<rparr>)\<rparr>)) src"
      using h iterateCursor_falsy_primaryKey by blast
    have e1: "iterateKeys action (Some ops) src =
        iterateKeys action (Some (ops\<lparr>opt_from := Some (f\<lparr>from_primaryKey := None\<rparr>)\<rparr>)) src"
      by (simp add: iterateKeys_def e get_query_def get_direction_def)
    have e2: "iterateValues action (Some ops) src =
        iterateValues action (Some (ops\<lparr>opt_from := Some (f\<lparr>from_primaryKey := None\<rparr>)\<rparr>)) src"
      by (simp add: iterateValues_def e get_query_def get_direction_def)
    have s1: "\<forall>k p. ContinuePrimaryKey k p \<notin> set (host_calls (run_events ?K))"
      using cK fs by (auto split: if_splits)
    have s2: "\<forall>k p. ContinuePrimaryKey k p \<notin> set (host_calls (run_events ?V))"
      using cV fs by (auto split: if_splits)
    have d: "(\<exists>rest. ?K =
            Inr (Call (OpenKeyCursor (opt_query ops) (opt_direction ops)) #
                 Call (Continue (Some (from_key f))) # rest)) \<and>
         (\<exists>rest. ?V =
            Inr (Call (OpenCursor (opt_query ops) (opt_direction ops)) #
                 Call (Continue (Some (from_key f))) # rest))"
      if g: "truthy_key (from_key f)" "thrown ?K = None" "thrown ?V = None"
        "fires (fault src) = None"
        "open_positions src (opt_query ops) (opt_direction ops) = c # cs"
    proof -
      have tk: "truthy_key_opt (get_from_key (Some ops))"
        using h g(1) by (simp add: get_from_key_def truthy_key_opt_def)
      have "\<exists>rest. ?K = Inr (Call (OpenKeyCursor (opt_query ops) (opt_direction ops)) #
          Call (from_seek (Some ops)) # rest)"
        by (rule iterateCursor_first_seek [OF tk g(2) g(4)])
           (simp add: request_positions_def g(5))
      moreover have "\<exists>rest. ?V = Inr (Call (OpenCursor (opt_query ops) (opt_direction ops)) #
          Call (from_seek (Some ops)) # rest)"
        by (rule iterateCursor_first_seek [OF tk g(3) g(4)])
           (simp add: request_positions_def g(5))
      ultimately show ?thesis by (simp add: fs)
    qed
    show ?thesis
      using e1 e2 s1 s2 d unfolding K V by blast
  qed
  from A B show ?thesis by blast
qed

text \<open>
  Witness of C10, on the name index (records \<open>bar\<close> and \<open>foo\<close>): from the empty string,
  key and value iteration deliver \<open>bar\<close> first and both records in all; from
  (\<open>foo\<close>, primary key 0) both seek with \<open>continue('foo')\<close>. On a store with keys -1, 0
  and 1 the run from key 0 delivers all three keys.
\<close>

theorem from_seek_truthiness_witness:
  "iterateKeys plain_callback
     (Some (no_options\<lparr>opt_from := Some \<lparr>from_key = KStr [], from_primaryKey = None\<rparr>\<rparr>))
     name_index =
     Inr [Call (OpenKeyCursor None None),
          Deliver \<lparr>cv_key = KStr ''bar'', cv_primaryKey = KNum 2, cv_value = None\<rparr>,
          Call (Continue None),
          Deliver \<lparr>cv_key = KStr ''foo'', cv_primaryKey = KNum 1, cv_value = None\<rparr>,
          Call (Continue None),
          Resolve] \<and>
   iterateValues plain_callback
     (Some (no_options\<lparr>opt_from := Some \<lparr>from_key = KStr [], from_primaryKey = None\<rparr>\<rparr>))
     name_index =
     Inr [Call (OpenCursor None None),
          Deliver \<lparr>cv_key = KStr ''bar'', cv_primaryKey = KNum 2,
                   cv_value = Some ''{id: 2, name: bar}''\<rparr>,
          Call (Continue None),
          Deliver \<lparr>cv_key = KStr ''foo'', cv_primaryKey = KNum 1,
                   cv_value = Some ''{id: 1, name: foo}''\<rparr>,
          Call (Continue None),
          Resolve] \<and>
   (\<forall>k. Continue (Some k) \<notin> set (host_calls (run_events (iterateValues plain_callback
     (Some (no_options\<lparr>opt_from := Some \<lparr>from_key = KStr [], from_primaryKey = None\<rparr>\<rparr>))
     name_index)))) \<and>
   (\<exists>rest. iterateValues plain_callback
     (Some (no_options\<lparr>opt_from := Some \<lparr>from_key = KStr [], from_primaryKey = None\<rparr>\<rparr>))
     name_index =
     Inr (Call (OpenCursor None None) #
          Deliver \<lparr>cv_key = KStr ''bar'', cv_primaryKey = KNum 2,
                   cv_value = Some ''{id: 2, name: bar}''\<rparr> # rest)) \<and>
   delivered (run_events (iterateKeys plain_callback
     (Some (no_options\<lparr>opt_from := Some \<lparr>from_key = KNum 0, from_primaryKey = None\<rparr>\<rparr>))
     (store_of [-1, 0, 1]))) = [KNum (-1), KNum 0, KNum 1] \<and>
   iterateKeys plain_callback
     (Some (no_options\<lparr>opt_from := Some \<lparr>from_key = KStr ''foo'', from_primaryKey = Some (KNum 0)\<rparr>\<rparr>))
     name_index =
     Inr [Call (OpenKeyCursor None None),
          Call (Continue (Some (KStr ''foo''))),
          Deliver \<lparr>cv_key = KStr ''foo'', cv_primaryKey = KNum 1, cv_value = None\<rparr>,
          Call (Continue None),
          Resolve] \<and>
   iterateValues plain_callback
     (Some (no_options\<lparr>opt_from := Some \<lparr>from_key = KStr ''foo'', from_primaryKey = Some (KNum 0)\<rparr>\<rparr>))
     name_index =
     Inr [Call (OpenCursor None None),
          Call (Continue (Some (KStr ''foo''))),
          Deliver \<lparr>cv_key = KStr ''foo'', cv_primaryKey = KNum 1,
                   cv_value = Some ''{id: 1, name: foo}''\<rparr>,
          Call (Continue None),
          Resolve] \<and>
   (\<exists>rest. iterateValues plain_callback
     (Some (no_options\<lparr>opt_from := Some \<lparr>from_key = KStr ''foo'', from_primaryKey = Some (KNum 0)\<rparr>\<rparr>))
     name_index =
     Inr (Call (OpenCursor None None) # Call (Continue (Some (KStr ''foo''))) # rest))"
proof -
  let ?f = "\<lparr>from_key = KStr [], from_primaryKey = None\<rparr>"
  let ?a = "no_options\<lparr>opt_from := Some ?f\<rparr>"
  let ?g = "\<lparr>from_key = KStr ''foo'', from_primaryKey = Some (KNum 0)\<rparr>"
  let ?b = "no_options\<lparr>opt_from := Some ?g\<rparr>"
  let ?bar = "\<lparr>ekey = KStr ''bar'', eprimaryKey = KNum 2, evalue = ''{id: 2, name: bar}''\<rparr>"
  let ?foo = "\<lparr>ekey = KStr ''foo'', eprimaryKey = KNum 1, evalue = ''{id: 1, name: foo}''\<rparr>"
  have ka: "iterateKeys plain_callback (Some ?a) name_index =
     Inr [Call (OpenKeyCursor None None),
          Deliver \<lparr>cv_key = KStr ''bar'', cv_primaryKey = KNum 2, cv_value = None\<rparr>,
          Call (Continue None),
          Deliver \<lparr>cv_key = KStr ''foo'', cv_primaryKey = KNum 1, cv_value = None\<rparr>,
          Call (Continue None),
          Resolve]"
    by code_simp
  have va: "iterateValues plain_callback (Some ?a) name_index =
     Inr [Call (OpenCursor None None),
          Deliver \<lparr>cv_key = KStr ''bar'', cv_primaryKey = KNum 2,
                   cv_value = Some ''{id: 2, name: bar}''\<rparr>,
          Call (Continue None),
          Deliver \<lparr>cv_key = KStr ''foo'', cv_primaryKey = KNum 1,
                   cv_value = Some ''{id: 1, name: foo}''\<rparr>,
          Call (Continue None),
          Resolve]"
    by code_simp
  have kz: "delivered (run_events (iterateKeys plain_callback
     (Some (no_options\<lparr>opt_from := Some \<lparr>from_key = KNum 0, from_primaryKey = None\<rparr>\<rparr>))
     (store_of [-1, 0, 1]))) = [KNum (-1), KNum 0, KNum 1]"
    by code_simp
  have kb: "iterateKeys plain_callback (Some ?b) name_index =
     Inr [Call (OpenKeyCursor None None),
          Call (Continue (Some (KStr ''foo''))),
          Deliver \<lparr>cv_key = KStr ''foo'', cv_primaryKey = KNum 1, cv_value = None\<rparr>,
          Call (Continue None),
          Resolve]"
    by code_simp
  have vb: "iterateValues plain_callback (Some ?b) name_index =
     Inr [Call (OpenCursor None None),
          Call (Continue (Some (KStr ''foo''))),
          Deliver \<lparr>cv_key = KStr ''foo'', cv_primaryKey = KNum 1,
                   cv_value = Some ''{id: 1, name: foo}''\<rparr>,
          Call (Continue None),
          Resolve]"
    by code_simp
  have pos: "open_positions name_index None None = [?bar, ?foo]"
    by (simp add: open_positions_def name_index_def the_direction_def is_unique_def is_prev_def)
  have flt: "fires (fault name_index) = None" by (simp add: name_index_def)
  have ta: "thrown (iterateKeys plain_callback (Some ?a) name_index) = None"
    "thrown (iterateValues plain_callback (Some ?a) name_index) = None"
    by (simp_all add: ka va thrown_def)
  have tb: "thrown (iterateKeys plain_callback (Some ?b) name_index) = None"
    "thrown (iterateValues plain_callback (Some ?b) name_index) = None"
    by (simp_all add: kb vb thrown_def)
  have fa: "opt_from ?a = Some ?f" "\<not> truthy_key (from_key ?f)"
    "\<not> truthy_num_opt (opt_offset ?a)" "opt_query ?a = None" "opt_direction ?a = None"
    by (simp_all add: no_options_def truthy_num_opt_def)
  have fb: "opt_from ?b = Some ?g" "from_primaryKey ?g = Some (KNum 0)" "\<not> truthy_key (KNum 0)"
    "truthy_key (from_key ?g)" "opt_query ?b = None" "opt_direction ?b = None"
    by (simp_all add: no_options_def)
  have hA: "opt_from ?a = Some ?f \<and> \<not> truthy_key (from_key ?f)"
    using fa by simp
  have gA: "\<not> truthy_num_opt (opt_offset ?a) \<and>
       thrown (iterateKeys plain_callback (Some ?a) name_index) = None \<and>
       thrown (iterateValues plain_callback (Some ?a) name_index) = None \<and>
       fires (fault name_index) = None \<and>
       open_positions name_index (opt_query ?a) (opt_direction ?a) = ?bar # [?foo]"
    using fa ta flt pos by simp
  note ia = from_seek_truthiness [where ops = ?a and f = ?f and action = plain_callback
      and src = name_index and c = ?bar and cs = "[?foo]", THEN conjunct1, THEN mp, OF hA]
  note ia3 = ia [THEN conjunct2, THEN conjunct2, THEN conjunct2, THEN conjunct2, THEN conjunct1]
  note ia7 = ia [THEN conjunct2, THEN conjunct2, THEN conjunct2, THEN conjunct2,
      THEN conjunct2, THEN conjunct2, THEN mp, OF gA, THEN conjunct2]
  from ia3 ia7
  have A: "(\<forall>k. Continue (Some k) \<notin> set (host_calls (run_events
        (iterateValues plain_callback (Some ?a) name_index)))) \<and>
      (\<exists>rest. iterateValues plain_callback (Some ?a) name_index =
        Inr (Call (OpenCursor None None) #
             Deliver \<lparr>cv_key = KStr ''bar'', cv_primaryKey = KNum 2,
                      cv_value = Some ''{id: 2, name: bar}''\<rparr> # rest))"
    by (simp add: fa(4,5))
  have hB: "opt_from ?b = Some ?g \<and> from_primaryKey ?g = Some (KNum 0) \<and> \<not> truthy_key (KNum 0)"
    using fb by simp
  have gB: "truthy_key (from_key ?g) \<and>
       thrown (iterateKeys plain_callback (Some ?b) name_index) = None \<and>
       thrown (iterateValues plain_callback (Some ?b) name_index) = None \<and>
       fires (fault name_index) = None \<and>
       open_positions name_index (opt_query ?b) (opt_direction ?b) = ?bar # [?foo]"
    using fb tb flt pos by simp
  note ib = from_seek_truthiness [where ops = ?b and f = ?g and pk = "KNum 0"
      and action = plain_callback and src = name_index and c = ?bar and cs = "[?foo]",
      THEN conjunct2, THEN mp, OF hB]
  note ib5 = ib [THEN conjunct2, THEN conjunct2, THEN conjunct2, THEN conjunct2,
      THEN mp, OF gB, THEN conjunct2]
  from ib5
  have B: "\<exists>rest. iterateValues plain_callback (Some ?b) name_index =
        Inr (Call (OpenCursor None None) # Call (Continue (Some (KStr ''foo''))) # rest)"
    by (simp add: fb(5,6))
  from ka va kz kb vb A B show ?thesis by blast
qed

subsection \<open>Offset\<close>

lemma pump_offset_step:
  assumes "get_offset opts = Some 1" "offsetNotApplied st" "\<not> fromIndexNotApplied st"
  shows "pump ix d opts action st flt (c # cs) = [Call (Advance 0), Throw TypeError]"
  using assms by (subst pump.simps) (simp add: onsuccess_def cursor_of_def)

lemma pump_offset_one_after_from:
  assumes "get_offset opts = Some 1" "offsetNotApplied st" "\<not> fromIndexNotApplied st"
  shows "pump ix d opts action st flt cur =
           (case cur of [] \<Rightarrow> [Resolve] | c # cs \<Rightarrow> [Call (Advance 0), Throw TypeError])"
  using assms by (cases cur) (simp_all add: pump_Nil pump_offset_step)

lemma pump_offset_one_from:
  assumes "get_offset opts = Some 1" "offsetNotApplied st" "fromIndexNotApplied st"
  shows "pump ix d opts action st flt (c # cs) =
           Call (from_seek opts) #
           (case cursor_exec ix d (from_seek opts) (c # cs) of
              Inl err \<Rightarrow> [Throw err]
            | Inr cur' \<Rightarrow>
                (case fires flt of
                   Some e \<Rightarrow> [Reject e]
                 | None \<Rightarrow>
                     (case cur' of
                        [] \<Rightarrow> [Resolve]
                      | c' # cs' \<Rightarrow> [Call (Advance 0), Throw TypeError])))"
proof -
  let ?st = "st\<lparr>fromIndexNotApplied := False\<rparr>"
  have n: "pump ix d opts action ?st flt' cur' =
      (case cur' of [] \<Rightarrow> [Resolve] | c' # cs' \<Rightarrow> [Call (Advance 0), Throw TypeError])"
    for flt' cur'
    using assms by (intro pump_offset_one_after_from) simp_all
  show ?thesis
    using assms(3)
    by (subst pump.simps)
       (simp add: onsuccess_def cursor_of_def n split: sum.splits option.splits)
qed

lemma pump_offset_one_delivers_nothing:
  assumes "get_offset opts = Some 1" "offsetNotApplied st"
  shows "delivered (pump ix d opts action st flt cur) = []"
proof (cases cur)
  case Nil
  then show ?thesis by (simp add: pump_Nil)
next
  case (Cons c cs)
  show ?thesis
  proof (cases "fromIndexNotApplied st")
    case True
    show ?thesis
      unfolding Cons pump_offset_one_from [OF assms True]
      by (simp split: sum.splits option.splits list.splits)
  next
    case False
    show ?thesis
      unfolding Cons pump_offset_step [OF assms False] by simp
  qed
qed

lemma iterateCursor_offset_one_delivers_nothing:
  assumes "get_offset opts = Some 1"
  shows "delivered (run_events (iterateCursor rq action opts src)) = []"
proof -
  have st: "offsetNotApplied (initial_state opts)"
    using assms by (simp add: initial_state_def truthy_num_opt_def truthy_number_def)
  show ?thesis
    by (simp add: iterateCursor_def run_events_def
        pump_offset_one_delivers_nothing [OF assms st] split: option.splits)
qed

lemma iterateCursor_offset_one_validation:
  assumes "get_offset opts = Some 1"
  shows "thrown (iterateCursor rq action opts src) \<noteq> Some (Error ''offset must be greater than 0'')"
  using assms by (simp add: iterateCursor_def thrown_def)

lemma iterateCursor_offset_one_plain:
  assumes "get_offset opts = Some 1" "\<not> truthy_key_opt (get_from_key opts)"
    "thrown (iterateCursor rq action opts src) = None" "fires (fault src) = None"
    "request_positions src rq \<noteq> []"
  shows "iterateCursor rq action opts src = Inr [Call rq, Call (Advance 0), Throw TypeError]"
proof -
  obtain c cs where cur: "request_positions src rq = c # cs"
    using assms(5) by (cases "request_positions src rq") auto
  have st: "offsetNotApplied (initial_state opts)" "\<not> fromIndexNotApplied (initial_state opts)"
    using assms(1,2) by (simp_all add: initial_state_def truthy_num_opt_def truthy_number_def)
  show ?thesis
    by (simp add: iterateCursor_started [OF assms(3,4)] cur
        pump_offset_step [OF assms(1) st])
qed

lemma iterateCursor_offset_one_sought:
  assumes "get_offset opts = Some 1" "truthy_key_opt (get_from_key opts)"
    "thrown (iterateCursor rq action opts src) = None" "fires (fault src) = None"
    "fires (tick (fault src)) = None"
    "cursor_exec (is_index src) (request_direction rq) (from_seek opts)
       (request_positions src rq) = Inr (c # cs)"
  shows "iterateCursor rq action opts src =
           Inr [Call rq, Call (from_seek opts), Call (Advance 0), Throw TypeError]"
proof -
  obtain b bs where cur: "request_positions src rq = b # bs"
    using assms(6) by (cases "request_positions src rq") auto
  have st: "offsetNotApplied (initial_state opts)" "fromIndexNotApplied (initial_state opts)"
    using assms(1,2) by (simp_all add: initial_state_def truthy_num_opt_def truthy_number_def)
  show ?thesis
    using assms(5,6)
    by (simp add: iterateCursor_started [OF assms(3,4)] cur
        pump_offset_one_from [OF assms(1) st])
qed

text \<open>
  C9, as stated, says of every run with offset exactly 1 over a non-empty result set that
  the first success event issues \<open>cursor.advance(0)\<close> and that the run fails. With
  \<open>{offset: 1, from: {key: 9}}\<close> over the keys 1 to 5 the first event is spent on
  \<open>cursor.continue(9)\<close>, which leaves no record: \<open>advance\<close> is never called and the run
  resolves.
\<close>

theorem offset_one_past_end_counterexample:
  "host_calls (run_events (iterateKeys plain_callback
     (Some (no_options\<lparr>opt_offset := Some 1,
        opt_from := Some \<lparr>from_key = KNum 9, from_primaryKey = None\<rparr>\<rparr>)) store5)) =
     [OpenKeyCursor None None, Continue (Some (KNum 9))] \<and>
   promise_of (run_events (iterateKeys plain_callback
     (Some (no_options\<lparr>opt_offset := Some 1,
        opt_from := Some \<lparr>from_key = KNum 9, from_primaryKey = None\<rparr>\<rparr>)) store5)) =
     Resolved ()"
  by code_simp

text \<open>
  C9, amended. For every run with offset exactly 1, key or value iteration, whatever the
  callback, the source and the other options: the validation does not refuse the offset,
  and no position is ever delivered to the callback. Whenever the run reaches the offset
  step, the handler calls \<open>cursor.advance(0)\<close>, which the host refuses with a
  \<open>TypeError\<close> thrown out of the handler, and the run ends there with its promise
  unsettled. The step is reached on the first success event when no truthy \<open>from.key\<close> is
  given, the options pass the validation and the cursor opens on a record; it is reached
  on the second success event when a truthy \<open>from.key\<close> is given, the options pass the
  validation, the open request and the seek succeed and the seek leaves the cursor on a
  record.
\<close>

theorem offset_one_throws:
  assumes "get_offset opts = Some 1"
  shows "thrown (iterateKeys action opts src) \<noteq> Some (Error ''offset must be greater than 0'') \<and>
         thrown (iterateValues action opts src) \<noteq> Some (Error ''offset must be greater than 0'') \<and>
         delivered (run_events (iterateKeys action opts src)) = [] \<and>
         delivered (run_events (iterateValues action opts src)) = [] \<and>
         (\<not> truthy_key_opt (get_from_key opts) \<and>
          thrown (iterateKeys action opts src) = None \<and>
          thrown (iterateValues action opts src) = None \<and>
          fires (fault src) = None \<and>
          open_positions src (get_query opts) (get_direction opts) \<noteq> [] \<longrightarrow>
            iterateKeys action opts src =
              Inr [Call (OpenKeyCursor (get_query opts) (get_direction opts)),
                   Call (Advance 0), Throw TypeError] \<and>
            iterateValues action opts src =
              Inr [Call (OpenCursor (get_query opts) (get_direction opts)),
                   Call (Advance 0), Throw TypeError]) \<and>
         (truthy_key_opt (get_from_key opts) \<and>
          thrown (iterateKeys action opts src) = None \<and>
          thrown (iterateValues action opts src) = None \<and>
          fires (fault src) = None \<and> fires (tick (fault src)) = None \<and>
          cursor_exec (is_index src) (the_direction (get_direction opts)) (from_seek opts)
            (open_positions src (get_query opts) (get_direction opts)) = Inr (c # cs) \<longrightarrow>
            iterateKeys action opts src =
              Inr [Call (OpenKeyCursor (get_query opts) (get_direction opts)),
                   Call (from_seek opts), Call (Advance 0), Throw TypeError] \<and>
            iterateValues action opts src =
              Inr [Call (OpenCursor (get_query opts) (get_direction opts)),
                   Call (from_seek opts), Call (Advance 0), Throw TypeError])"
proof (intro conjI impI)
  show "thrown (iterateKeys action opts src) \<noteq> Some (Error ''offset must be greater than 0'')"
    unfolding iterateKeys_def by (rule iterateCursor_offset_one_validation [OF assms])
  show "thrown (iterateValues action opts src) \<noteq> Some (Error ''offset must be greater than 0'')"
    unfolding iterateValues_def by (rule iterateCursor_offset_one_validation [OF assms])
  show "delivered (run_events (iterateKeys action opts src)) = []"
    unfolding iterateKeys_def by (rule iterateCursor_offset_one_delivers_nothing [OF assms])
  show "delivered (run_events (iterateValues action opts src)) = []"
    unfolding iterateValues_def by (rule iterateCursor_offset_one_delivers_nothing [OF assms])
next
  assume h: "\<not> truthy_key_opt (get_from_key opts) \<and>
          thrown (iterateKeys action opts src) = None \<and>
          thrown (iterateValues action opts src) = None \<and>
          fires (fault src) = None \<and>
          open_positions src (get_query opts) (get_direction opts) \<noteq> []"
  show "iterateKeys action opts src =
              Inr [Call (OpenKeyCursor (get_query opts) (get_direction opts)),
                   Call (Advance 0), Throw TypeError]"
    using h unfolding iterateKeys_def
    by (intro iterateCursor_offset_one_plain [OF assms]) (simp_all add: request_positions_def)
  show "iterateValues action opts src =
              Inr [Call (OpenCursor (get_query opts) (get_direction opts)),
                   Call (Advance 0), Throw TypeError]"
    using h unfolding iterateValues_def
    by (intro iterateCursor_offset_one_plain [OF assms]) (simp_all add: request_positions_def)
next
  assume h: "truthy_key_opt (get_from_key opts) \<and>
          thrown (iterateKeys action opts src) = None \<and>
          thrown (iterateValues action opts src) = None \<and>
          fires (fault src) = None \<and> fires (tick (fault src)) = None \<and>
          cursor_exec (is_index src) (the_direction (get_direction opts)) (from_seek opts)
            (open_positions src (get_query opts) (get_direction opts)) = Inr (c # cs)"
  show "iterateKeys action opts src =
              Inr [Call (OpenKeyCursor (get_query opts) (get_direction opts)),
                   Call (from_seek opts), Call (Advance 0), Throw TypeError]"
    using h unfolding iterateKeys_def
    by (intro iterateCursor_offset_one_sought [OF assms, where c = c and cs = cs])
       (simp_all add: request_positions_def request_direction_def)
  show "iterateValues action opts src =
              Inr [Call (OpenCursor (get_query opts) (get_direction opts)),
                   Call (from_seek opts), Call (Advance 0), Throw TypeError]"
    using h unfolding iterateValues_def
    by (intro iterateCursor_offset_one_sought [OF assms, where c = c and cs = cs])
       (simp_all add: request_positions_def request_direction_def)
qed

text \<open>Witness of C9, over the keys 1 to 5: \<open>{offset: 1}\<close> throws on the first event,
  \<open>{offset: 1, from: {key: 3}}\<close> on the second, and \<open>{offset: 1, from: {key: 9}}\<close>
  delivers nothing.\<close>

theorem offset_one_throws_witness:
  "get_offset (Some (no_options\<lparr>opt_offset := Some 1\<rparr>)) = Some 1 \<and>
   iterateKeys plain_callback (Some (no_options\<lparr>opt_offset := Some 1\<rparr>)) store5 =
     Inr [Call (OpenKeyCursor None None), Call (Advance 0), Throw TypeError] \<and>
   iterateValues plain_callback (Some (no_options\<lparr>opt_offset := Some 1\<rparr>)) store5 =
     Inr [Call (OpenCursor None None), Call (Advance 0), Throw TypeError] \<and>
   iterateKeys plain_callback
     (Some (no_options\<lparr>opt_offset := Some 1,
        opt_from := Some \<lparr>from_key = KNum 3, from_primaryKey = None\<rparr>\<rparr>)) store5 =
     Inr [Call (OpenKeyCursor None None), Call (Continue (Some (KNum 3))),
          Call (Advance 0), Throw TypeError] \<and>
   iterateValues plain_callback
     (Some (no_options\<lparr>opt_offset := Some 1,
        opt_from := Some \<lparr>from_key = KNum 3, from_primaryKey = None\<rparr>\<rparr>)) store5 =
     Inr [Call (OpenCursor None None), Call (Continue (Some (KNum 3))),
          Call (Advance 0), Throw TypeError] \<and>
   delivered (run_events (iterateKeys plain_callback
     (Some (no_options\<lparr>opt_offset := Some 1,
        opt_from := Some \<lparr>from_key = KNum 9, from_primaryKey = None\<rparr>\<rparr>)) store5)) = []"
proof -
  let ?p = "Some (no_options\<lparr>opt_offset := Some 1\<rparr>)"
  let ?q = "Some (no_options\<lparr>opt_offset := Some 1,
        opt_from := Some \<lparr>from_key = KNum 3, from_primaryKey = None\<rparr>\<rparr>)"
  let ?r = "Some (no_options\<lparr>opt_offset := Some 1,
        opt_from := Some \<lparr>from_key = KNum 9, from_primaryKey = None\<rparr>\<rparr>)"
  let ?e = "\<lambda>k. \<lparr>ekey = KNum k, eprimaryKey = KNum k, evalue = ()\<rparr>"
  have o: "get_offset ?p = Some 1" "get_offset ?q = Some 1" "get_offset ?r = Some 1"
    by (simp_all add: get_offset_def)
  have qd: "get_query ?p = None" "get_direction ?p = None"
    "get_query ?q = None" "get_direction ?q = None"
    by (simp_all add: get_query_def get_direction_def no_options_def)
  have f: "fires (fault store5) = None" "fires (tick (fault store5)) = None"
    "is_index store5 = False"
    by (simp_all add: store5_def store_of_def)
  have pos: "open_positions store5 None None = map ?e [1, 2, 3, 4, 5]"
    by (simp add: open_positions_def store5_def store_of_def the_direction_def
        is_unique_def is_prev_def)
  have tp: "thrown (iterateKeys plain_callback ?p store5) = None"
    "thrown (iterateValues plain_callback ?p store5) = None"
    "thrown (iterateKeys plain_callback ?q store5) = None"
    "thrown (iterateValues plain_callback ?q store5) = None"
    by (simp_all add: iterateKeys_def iterateValues_def iterateCursor_def thrown_def
        get_offset_def get_limit_def no_options_def truthy_num_opt_def truthy_number_def)
  have fp: "\<not> truthy_key_opt (get_from_key ?p)"
    by (simp add: get_from_key_def no_options_def truthy_key_opt_def)
  have fq: "truthy_key_opt (get_from_key ?q)"
    by (simp add: get_from_key_def truthy_key_opt_def)
  have sq: "from_seek ?q = Continue (Some (KNum 3))"
    by (simp add: from_seek_def get_from_primaryKey_def get_from_key_def)
  have ex: "cursor_exec (is_index store5) (the_direction (get_direction ?q)) (from_seek ?q)
      (open_positions store5 (get_query ?q) (get_direction ?q)) = Inr (?e 3 # map ?e [4, 5])"
    by (simp add: sq qd f pos the_direction_def before_def is_prev_def)
  have ne: "open_positions store5 (get_query ?p) (get_direction ?p) \<noteq> []"
    by (simp add: qd pos)
  from offset_one_throws [OF o(1), of plain_callback store5] fp tp(1,2) f(1) ne
  have a: "iterateKeys plain_callback ?p store5 =
      Inr [Call (OpenKeyCursor None None), Call (Advance 0), Throw TypeError] \<and>
    iterateValues plain_callback ?p store5 =
      Inr [Call (OpenCursor None None), Call (Advance 0), Throw TypeError]"
    by (simp add: qd)
  from offset_one_throws [OF o(2), of plain_callback store5 "?e 3" "map ?e [4, 5]"]
    fq tp(3,4) f(1,2) ex
  have b: "iterateKeys plain_callback ?q store5 =
      Inr [Call (OpenKeyCursor None None), Call (Continue (Some (KNum 3))),
           Call (Advance 0), Throw TypeError] \<and>
    iterateValues plain_callback ?q store5 =
      Inr [Call (OpenCursor None None), Call (Continue (Some (KNum 3))),
           Call (Advance 0), Throw TypeError]"
    by (simp add: qd sq)
  from offset_one_throws [OF o(3), of plain_callback store5]
  have c: "delivered (run_events (iterateKeys plain_callback ?r store5)) = []"
    by blast
  from a b c o(1) show ?thesis by simp
qed

text \<open>
  C3, as the spec states it: with \<open>{offset: 2}\<close> over the keys 1 to 5 the first key
  delivered is 3. It is not.
\<close>

theorem offset_two_first_delivery_counterexample:
  "first_delivered (iterateKeys plain_callback (Some (no_options\<lparr>opt_offset := Some 2\<rparr>)) store5)
     \<noteq> Some (KNum 3)"
  by code_simp

text \<open>
  C3, amended: with \<open>{offset: 2}\<close> and no other option over the keys 1 to 5, the first
  key delivered to the callback is 2. The first success event is spent on one call
  \<open>cursor.advance(1)\<close>, that is \<open>offset - 1\<close> positions past the first record, and the
  position reached is the first one delivered. This holds for every callback, for key
  and for value iteration.
\<close>

theorem offset_two_first_delivery:
  "first_delivered (iterateKeys action (Some (no_options\<lparr>opt_offset := Some 2\<rparr>)) store5) =
     Some (KNum 2) \<and>
   first_delivered (iterateValues action (Some (no_options\<lparr>opt_offset := Some 2\<rparr>)) store5) =
     Some (KNum 2) \<and>
   take 2 (host_calls (run_events
       (iterateKeys action (Some (no_options\<lparr>opt_offset := Some 2\<rparr>)) store5))) =
     [OpenKeyCursor None None, Advance 1]"
proof -
  let ?opts = "Some (no_options\<lparr>opt_offset := Some 2\<rparr>)"
  let ?st = "\<lparr>offsetNotApplied = True, fromIndexNotApplied = False, curCount = 0\<rparr>"
  let ?st' = "\<lparr>offsetNotApplied = False, fromIndexNotApplied = False, curCount = 0\<rparr>"
  let ?e1 = "\<lparr>ekey = KNum 1, eprimaryKey = KNum 1, evalue = ()\<rparr>"
  let ?tl = "[\<lparr>ekey = KNum 2, eprimaryKey = KNum 2, evalue = ()\<rparr>,
              \<lparr>ekey = KNum 3, eprimaryKey = KNum 3, evalue = ()\<rparr>,
              \<lparr>ekey = KNum 4, eprimaryKey = KNum 4, evalue = ()\<rparr>,
              \<lparr>ekey = KNum 5, eprimaryKey = KNum 5, evalue = ()\<rparr>]"
  have pre: "get_offset ?opts = Some 2" "get_limit ?opts = None" "get_query ?opts = None"
    "get_direction ?opts = None" "fault store5 = None" "is_index store5 = False"
    by (simp_all add: get_offset_def get_limit_def get_query_def get_direction_def
        no_options_def store5_def store_of_def)
  have st: "initial_state ?opts = ?st"
    by (simp add: initial_state_def get_offset_def get_from_key_def no_options_def
        truthy_num_opt_def truthy_number_def truthy_key_opt_def)
  have pos: "open_positions store5 None None = ?e1 # ?tl"
    by (simp add: open_positions_def store5_def store_of_def the_direction_def
        is_unique_def is_prev_def)
  have seek: "pump False Next ?opts act ?st None (?e1 # ?tl) =
      Call (Advance 1) # pump False Next ?opts act ?st' None ?tl"
    for act :: "unit entry \<Rightarrow> unit event list \<times> ret settled"
    by (subst pump.simps) (simp add: onsuccess_def cursor_of_def pre)
  have run: "iterateCursor rq act ?opts store5 =
      Inr (Call rq # pump False (request_direction rq) ?opts act ?st None
             (request_positions store5 rq))"
    for rq and act :: "unit entry \<Rightarrow> unit event list \<times> ret settled"
    by (simp add: iterateCursor_def pre st truthy_num_opt_def truthy_number_def)
  have "\<exists>r2. pump False Next ?opts (key_action action) ?st' None ?tl =
      Deliver \<lparr>cv_key = KNum 2, cv_primaryKey = KNum 2, cv_value = None\<rparr> # r2"
    by (subst pump.simps)
       (simp add: onsuccess_def cursor_of_def key_action_def pre Let_def)
  then obtain r2 where r2: "pump False Next ?opts (key_action action) ?st' None ?tl =
      Deliver \<lparr>cv_key = KNum 2, cv_primaryKey = KNum 2, cv_value = None\<rparr> # r2" ..
  have "\<exists>r3. pump False Next ?opts (value_action action) ?st' None ?tl =
      Deliver \<lparr>cv_key = KNum 2, cv_primaryKey = KNum 2, cv_value = Some ()\<rparr> # r3"
    by (subst pump.simps)
       (simp add: onsuccess_def cursor_of_def value_action_def pre Let_def)
  then obtain r3 where r3: "pump False Next ?opts (value_action action) ?st' None ?tl =
      Deliver \<lparr>cv_key = KNum 2, cv_primaryKey = KNum 2, cv_value = Some ()\<rparr> # r3" ..
  have k: "iterateKeys action ?opts store5 =
      Inr (Call (OpenKeyCursor None None) # Call (Advance 1) #
           Deliver \<lparr>cv_key = KNum 2, cv_primaryKey = KNum 2, cv_value = None\<rparr> # r2)"
    by (simp add: iterateKeys_def run pre request_direction_def request_positions_def
        the_direction_def pos seek r2)
  have v: "iterateValues action ?opts store5 =
      Inr (Call (OpenCursor None None) # Call (Advance 1) #
           Deliver \<lparr>cv_key = KNum 2, cv_primaryKey = KNum 2, cv_value = Some ()\<rparr> # r3)"
    by (simp add: iterateValues_def run pre request_direction_def request_positions_def
        the_direction_def pos seek r3)
  show ?thesis
    by (simp add: k v first_delivered_def run_events_def)
qed

subsection \<open>Validation\<close>

text \<open>The validation throws exactly for a negative \<open>offset\<close> or \<open>limit\<close>; a thrown run has
  made no host call, since it has no events at all.\<close>

lemma validation_throws_iff:
  "thrown (iterateCursor rq action opts src) \<noteq> None \<longleftrightarrow>
     (\<exists>n. get_offset opts = Some n \<and> n < 0) \<or> (\<exists>n. get_limit opts = Some n \<and> n < 0)"
  by (auto simp: thrown_def iterateCursor_def truthy_num_opt_def truthy_number_def
      split: option.splits)

text \<open>
  C4 asks that \<open>{offset: 0}\<close> and \<open>{limit: 0}\<close> fail before any host call. The guards
  \<open>options?.offset && options.offset < 1\<close> and \<open>options?.limit && options.limit < 1\<close> are
  false for 0, so nothing is thrown: the cursor is opened and all five keys are delivered,
  as if the option were absent.
\<close>

theorem zero_options_accepted:
  "thrown (iterateKeys plain_callback (Some (no_options\<lparr>opt_offset := Some 0\<rparr>)) store5) = None \<and>
   delivered (run_events
     (iterateKeys plain_callback (Some (no_options\<lparr>opt_offset := Some 0\<rparr>)) store5)) =
     [KNum 1, KNum 2, KNum 3, KNum 4, KNum 5] \<and>
   thrown (iterateKeys plain_callback (Some (no_options\<lparr>opt_limit := Some 0\<rparr>)) store5) = None \<and>
   delivered (run_events
     (iterateKeys plain_callback (Some (no_options\<lparr>opt_limit := Some 0\<rparr>)) store5)) =
     [KNum 1, KNum 2, KNum 3, KNum 4, KNum 5]"
  by code_simp

subsection \<open>Early break and limit\<close>

lemma early_break_trace:
  "iterateKeys (stop_at (KNum 3)) None store5 =
     Inr [Call (OpenKeyCursor None None),
          Deliver \<lparr>cv_key = KNum 1, cv_primaryKey = KNum 1, cv_value = None\<rparr>,
          Call (Continue None),
          Deliver \<lparr>cv_key = KNum 2, cv_primaryKey = KNum 2, cv_value = None\<rparr>,
          Call (Continue None),
          Deliver \<lparr>cv_key = KNum 3, cv_primaryKey = KNum 3, cv_value = None\<rparr>,
          Call (Continue None),
          Deliver \<lparr>cv_key = KNum 4, cv_primaryKey = KNum 4, cv_value = None\<rparr>,
          Call (Continue None),
          Deliver \<lparr>cv_key = KNum 5, cv_primaryKey = KNum 5, cv_value = None\<rparr>,
          Call (Continue None),
          Resolve]"
  by code_simp

lemma key_action_stop_at: "key_action (stop_at k) = key_action plain_callback"
  by (rule ext) (simp add: key_action_def stop_at_def plain_callback_def)

text \<open>
  C1 asks that a key iteration whose callback returns \<open>true\<close> at key 3 stops there. The
  arrow function \<open>iterateKeys\<close> hands to the engine awaits the callback and returns
  nothing, so the engine's \<open>done\<close> is always \<open>undefined\<close>: a callback that returns \<open>true\<close>
  at some key runs exactly like one that never does. Over the keys 1 to 5, keys 4 and 5
  are delivered and \<open>cursor.continue()\<close> is called after each of the five deliveries.
\<close>

theorem early_break_ignored:
  "iterateKeys (stop_at k) opts src = iterateKeys plain_callback opts src \<and>
   delivered (run_events (iterateKeys (stop_at (KNum 3)) None store5)) =
     [KNum 1, KNum 2, KNum 3, KNum 4, KNum 5] \<and>
   host_calls (run_events (iterateKeys (stop_at (KNum 3)) None store5)) =
     [OpenKeyCursor None None, Continue None, Continue None, Continue None, Continue None,
      Continue None]"
proof -
  have "iterateKeys (stop_at k) opts src = iterateKeys plain_callback opts src"
    by (simp add: iterateKeys_def key_action_stop_at)
  then show ?thesis
    by (simp add: early_break_trace run_events_def)
qed

lemma limit_two_trace:
  "iterateKeys plain_callback (Some (no_options\<lparr>opt_limit := Some 2\<rparr>)) store5 =
     Inr [Call (OpenKeyCursor None None),
          Deliver \<lparr>cv_key = KNum 1, cv_primaryKey = KNum 1, cv_value = None\<rparr>,
          Call (Continue None),
          Deliver \<lparr>cv_key = KNum 2, cv_primaryKey = KNum 2, cv_value = None\<rparr>,
          Resolve,
          Call (Continue None),
          Deliver \<lparr>cv_key = KNum 3, cv_primaryKey = KNum 3, cv_value = None\<rparr>,
          Resolve,
          Call (Continue None),
          Deliver \<lparr>cv_key = KNum 4, cv_primaryKey = KNum 4, cv_value = None\<rparr>,
          Resolve,
          Call (Continue None),
          Deliver \<lparr>cv_key = KNum 5, cv_primaryKey = KNum 5, cv_value = None\<rparr>,
          Resolve,
          Call (Continue None),
          Resolve]"
  by code_simp

text \<open>
  C2 asks that \<open>{limit: 2}\<close> over the keys 1 to 5 invokes the callback for exactly two
  positions and makes no host call once the run is done. The handler calls \<open>resolve()\<close>
  when the count reaches the limit, but the \<open>then\<close> callback of the action still calls
  \<open>cursor.continue()\<close>: the promise resolves after the second delivery, and then keys 3, 4
  and 5 are delivered too, with four more calls of \<open>cursor.continue()\<close>.
\<close>

theorem limit_two_overruns:
  "promise_of (run_events (iterateKeys plain_callback (Some (no_options\<lparr>opt_limit := Some 2\<rparr>)) store5)) =
     Resolved () \<and>
   delivered (run_events (iterateKeys plain_callback (Some (no_options\<lparr>opt_limit := Some 2\<rparr>)) store5)) =
     [KNum 1, KNum 2, KNum 3, KNum 4, KNum 5] \<and>
   host_calls (after_settled (run_events
       (iterateKeys plain_callback (Some (no_options\<lparr>opt_limit := Some 2\<rparr>)) store5))) =
     [Continue None, Continue None, Continue None, Continue None]"
  by (simp add: limit_two_trace run_events_def)

section \<open>Properties of the store and index handles\<close>

lemma Index_getAllPrimaryKeys_is_getAll:
  "Index_getAllPrimaryKeys index q count = Index_getAll index q count"
  by (simp add: Index_getAllPrimaryKeys_def Index_getAll_def)

lemma Index_getAllPrimaryKeys_never_keys:
  "Index_getAllPrimaryKeys index q count \<noteq> Inr (Resolved (Keys ks))"
  by (auto simp: Index_getAllPrimaryKeys_def IDBIndex_getAll_def host_bulk_def dbPromise_def
      split: option.splits request.splits)

lemma ObjectStore_getAllPrimaryKeys_keys:
  assumes "fault objectStore = None"
  shows "ObjectStore_getAllPrimaryKeys objectStore q None =
           Inr (Resolved (Keys (map eprimaryKey (selected objectStore q))))"
  using assms
  by (simp add: ObjectStore_getAllPrimaryKeys_def IDBObjectStore_getAllKeys_def host_bulk_def
      dbPromise_def)

text \<open>
  C5 asks that \<open>getAllPrimaryKeys\<close> resolves with primary keys on a store and on an index
  alike. \<open>ObjectStore.getAllPrimaryKeys\<close> calls the host's \<open>getAllKeys\<close>;
  \<open>Index.getAllPrimaryKeys\<close> calls the host's \<open>getAll\<close>. On the name index holding the
  tasks with primary keys 2 and 1, the index method resolves with the two stored values,
  where the host's \<open>getAllKeys\<close> on that index yields the primary keys [2, 1]; the store
  method, on the store of the same tasks, resolves with the primary keys [1, 2].
\<close>

theorem index_getAllPrimaryKeys_returns_values:
  "Index_getAllPrimaryKeys name_index None None =
     Inr (Resolved (Values [''{id: 2, name: bar}'', ''{id: 1, name: foo}''])) \<and>
   dbPromise (IDBIndex_getAllKeys name_index None None) =
     Inr (Resolved (Keys [KNum 2, KNum 1])) \<and>
   ObjectStore_getAllPrimaryKeys task_store None None =
     Inr (Resolved (Keys [KNum 1, KNum 2]))"
  by (simp add: Index_getAllPrimaryKeys_def IDBIndex_getAll_def IDBIndex_getAllKeys_def
      host_bulk_def dbPromise_def ObjectStore_getAllPrimaryKeys_def
      IDBObjectStore_getAllKeys_def name_index_def task_store_def selected_def matches_def)

section \<open>Properties of \<open>Database.transaction\<close>\<close>

lemma tx_run_resolved:
  assumes "tx_promise (tx_run st h evs) = Resolved r"
  shows "(\<exists>pre v post. evs = pre @ Complete # post \<and> Complete \<notin> set pre \<and>
            ActionFulfilled v \<in> set pre \<and> r = Some v) \<or>
         (actionCompleted st \<and> r = result st \<and> Complete \<in> set evs)"
  using assms
proof (induction evs arbitrary: st h)
  case Nil
  then show ?case by simp
next
  case (Cons ev evs)
  have extend: "(\<exists>pre v post. ev # evs = pre @ Complete # post \<and> Complete \<notin> set pre \<and>
            ActionFulfilled v \<in> set pre \<and> r = Some v) \<or>
         (actionCompleted st \<and> r = result st \<and> Complete \<in> set (ev # evs))"
    if ne: "ev \<noteq> Complete"
      and ih: "(\<exists>pre v post. evs = pre @ Complete # post \<and> Complete \<notin> set pre \<and>
            ActionFulfilled v \<in> set pre \<and> r = Some v) \<or>
         (actionCompleted st \<and> r = result st \<and> Complete \<in> set evs)"
  proof -
    from ih show ?thesis
    proof
      assume "\<exists>pre v post. evs = pre @ Complete # post \<and> Complete \<notin> set pre \<and>
            ActionFulfilled v \<in> set pre \<and> r = Some v"
      then obtain pre v post where "evs = pre @ Complete # post" "Complete \<notin> set pre"
        "ActionFulfilled v \<in> set pre" "r = Some v" by blast
      then have "ev # evs = (ev # pre) @ Complete # post \<and> Complete \<notin> set (ev # pre) \<and>
            ActionFulfilled v \<in> set (ev # pre) \<and> r = Some v"
        using ne by simp
      then show ?thesis by blast
    next
      assume "actionCompleted st \<and> r = result st \<and> Complete \<in> set evs"
      then show ?thesis by simp
    qed
  qed
  show ?case
  proof (cases ev)
    case Complete
    with Cons.prems show ?thesis
      by (auto simp: oncomplete_def split: if_splits)
  next
    case (ActionFulfilled out)
    let ?st = "st\<lparr>actionCompleted := True, result := Some out\<rparr>"
    from Cons.prems ActionFulfilled
    have "tx_promise (tx_run ?st h evs) = Resolved r" by simp
    from Cons.IH [OF this] show ?thesis
    proof
      assume "\<exists>pre v post. evs = pre @ Complete # post \<and> Complete \<notin> set pre \<and>
            ActionFulfilled v \<in> set pre \<and> r = Some v"
      then obtain pre v post where "evs = pre @ Complete # post" "Complete \<notin> set pre"
        "ActionFulfilled v \<in> set pre" "r = Some v" by blast
      then have "ev # evs = (ev # pre) @ Complete # post \<and> Complete \<notin> set (ev # pre) \<and>
            ActionFulfilled v \<in> set (ev # pre) \<and> r = Some v"
        using ActionFulfilled by simp
      then show ?thesis by blast
    next
      assume a: "actionCompleted ?st \<and> r = result ?st \<and> Complete \<in> set evs"
      then obtain pre post where "evs = pre @ Complete # post" "Complete \<notin> set pre"
        by (meson split_list_first)
      then have "ev # evs = (ev # pre) @ Complete # post \<and> Complete \<notin> set (ev # pre) \<and>
            ActionFulfilled out \<in> set (ev # pre) \<and> r = Some out"
        using ActionFulfilled a by simp
      then show ?thesis by blast
    qed
  next
    case (ActionRejected e)
    with Cons.prems have "tx_promise (tx_run st h evs) = Resolved r"
      by (auto simp: IDBTransaction_abort_def split: if_splits)
    from extend [OF _ Cons.IH [OF this]] ActionRejected show ?thesis by simp
  next
    case ActionAborts
    with Cons.prems have "\<exists>h'. tx_promise (tx_run st h' evs) = Resolved r"
      by (auto simp: IDBTransaction_abort_def split: if_splits)
    then obtain h' where "tx_promise (tx_run st h' evs) = Resolved r" ..
    from extend [OF _ Cons.IH [OF this]] ActionAborts show ?thesis by simp
  next
    case ActionCommits
    with Cons.prems have "\<exists>h'. tx_promise (tx_run st h' evs) = Resolved r"
      by (auto simp: IDBTransaction_commit_def split: if_splits)
    then obtain h' where "tx_promise (tx_run st h' evs) = Resolved r" ..
    from extend [OF _ Cons.IH [OF this]] ActionCommits show ?thesis by simp
  next
    case HostAborts
    with Cons.prems have "tx_promise (tx_run st Finished evs) = Resolved r" by simp
    from extend [OF _ Cons.IH [OF this]] HostAborts show ?thesis by simp
  qed
qed

lemma tx_run_completes_pending:
  assumes "\<not> list_ex is_settlement pre" "\<not> actionCompleted st"
  shows "tx_promise (tx_run st h (pre @ Complete # post)) = Rejected completed_early"
  using assms
proof (induction pre arbitrary: h)
  case Nil
  then show ?case by (simp add: oncomplete_def)
next
  case (Cons ev pre)
  then show ?case
    by (cases ev)
       (auto simp: is_settlement_def oncomplete_def IDBTransaction_abort_def
          IDBTransaction_commit_def)
qed

text \<open>
  C6. Once the transaction exists: if the host fires \<open>complete\<close> while the action's promise
  has not settled, the promise of \<open>transaction()\<close> is rejected with the error
  "Transaction completed before action function completed", whatever happens later; and
  if the promise of \<open>transaction()\<close> resolves at all, it resolves with a value \<open>v\<close> that
  the action's promise fulfilled with before the first \<open>complete\<close> event, never with
  \<open>undefined\<close>.
\<close>

theorem completion_before_action:
  assumes "IDBDatabase_transaction db (map name scope) m = None"
  shows "(\<not> list_ex is_settlement pre \<longrightarrow>
            tx_promise (transaction db scope m (pre @ Complete # post)) =
              Rejected completed_early) \<and>
         (tx_promise (transaction db scope m evs) = Resolved r \<longrightarrow>
            (\<exists>before v after. evs = before @ Complete # after \<and> Complete \<notin> set before \<and>
               ActionFulfilled v \<in> set before \<and> r = Some v))"
proof (intro conjI impI)
  assume "\<not> list_ex is_settlement pre"
  then show "tx_promise (transaction db scope m (pre @ Complete # post)) = Rejected completed_early"
    using assms by (simp add: transaction_def tx_run_completes_pending)
next
  assume "tx_promise (transaction db scope m evs) = Resolved r"
  then have "tx_promise (tx_run \<lparr>actionCompleted = False, result = None\<rparr> Live evs) = Resolved r"
    using assms by (simp add: transaction_def)
  from tx_run_resolved [OF this]
  show "\<exists>before v after. evs = before @ Complete # after \<and> Complete \<notin> set before \<and>
               ActionFulfilled v \<in> set before \<and> r = Some v"
    by simp
qed

text \<open>Witness of C6: \<open>complete\<close> before the action fulfils with 7, and after it.\<close>

theorem completion_before_action_witness:
  "IDBDatabase_transaction todo_db (map name [todo_store]) ReadWrite = None \<and>
   \<not> list_ex is_settlement ([] :: int tx_event list) \<and>
   tx_promise (transaction todo_db [todo_store] ReadWrite ([] @ Complete # [ActionFulfilled (7::int)])) =
     Rejected completed_early \<and>
   tx_promise (transaction todo_db [todo_store] ReadWrite [ActionFulfilled (7::int), Complete]) =
     Resolved (Some 7) \<and>
   (\<exists>before v after. [ActionFulfilled (7::int), Complete] = before @ Complete # after \<and>
      Complete \<notin> set before \<and> ActionFulfilled v \<in> set before \<and> Some (7::int) = Some v)"
proof -
  have ok: "IDBDatabase_transaction todo_db (map name [todo_store]) ReadWrite = None"
    by (simp add: IDBDatabase_transaction_def todo_db_def todo_store_def)
  have r: "tx_promise (transaction todo_db [todo_store] ReadWrite [ActionFulfilled (7::int), Complete]) =
     Resolved (Some 7)"
    using ok by (simp add: transaction_def oncomplete_def)
  have np: "\<not> list_ex is_settlement ([] :: int tx_event list)" by simp
  from completion_before_action [OF ok, of "[]" "[ActionFulfilled 7]" "[ActionFulfilled 7, Complete]" "Some 7"]
  show ?thesis using ok r np by blast
qed

lemma tx_promise_append:
  "tx_promise (xs @ ys) = (if tx_promise xs = Pending then tx_promise ys else tx_promise xs)"
  by (induction xs rule: tx_promise.induct) simp_all

lemma tx_status_stays: "h \<noteq> Live \<Longrightarrow> tx_status h evs \<noteq> Live"
proof (induction evs arbitrary: h)
  case Nil
  then show ?case by simp
next
  case (Cons ev evs)
  then show ?case
    by (cases ev) (auto simp: IDBTransaction_abort_def IDBTransaction_commit_def)
qed

lemma tx_run_live_pending:
  "tx_status Live evs = Live \<Longrightarrow> tx_promise (tx_run st Live evs) = Pending"
proof (induction evs arbitrary: st)
  case Nil
  then show ?case by simp
next
  case (Cons ev evs)
  have nl: "tx_status Finished evs \<noteq> Live" "tx_status Committing evs \<noteq> Live"
    by (simp_all add: tx_status_stays)
  from Cons nl show ?case
    by (cases ev) (auto simp: IDBTransaction_abort_def IDBTransaction_commit_def)
qed

lemma tx_run_append:
  "\<exists>st'. tx_run st h (pre @ rest) = tx_run st h pre @ tx_run st' (tx_status h pre) rest"
proof (induction pre arbitrary: st h)
  case Nil
  then show ?case by auto
next
  case (Cons ev pre)
  show ?case
  proof (cases ev)
    case Complete
    with Cons [of st Finished] show ?thesis by auto
  next
    case (ActionFulfilled out)
    with Cons [of "st\<lparr>actionCompleted := True, result := Some out\<rparr>" h] show ?thesis by auto
  next
    case (ActionRejected e)
    with Cons [of st h] Cons [of st Finished] show ?thesis
      by (auto simp: IDBTransaction_abort_def)
  next
    case ActionAborts
    with Cons [of st h] Cons [of st Finished] show ?thesis
      by (auto simp: IDBTransaction_abort_def)
  next
    case ActionCommits
    with Cons [of st h] Cons [of st Committing] show ?thesis
      by (auto simp: IDBTransaction_commit_def)
  next
    case HostAborts
    with Cons [of st Finished] show ?thesis by auto
  qed
qed

text \<open>
  C7, as stated, says that whenever the action's promise rejects with \<open>e\<close>, the promise
  of \<open>transaction()\<close> rejects with \<open>e\<close>. When the host has reported the transaction
  complete before the action rejects, the promise is already rejected with the
  completion error, and stays so.
\<close>

theorem action_failure_after_completion_counterexample:
  "tx_promise (transaction todo_db [todo_store] ReadWrite
      [Complete, ActionRejected (Error ''boom'') :: int tx_event]) \<noteq> Rejected (Error ''boom'')"
  by (simp add: transaction_def IDBDatabase_transaction_def todo_db_def todo_store_def
      oncomplete_def completed_early_def)

text \<open>
  C7, amended. Once the transaction exists: whenever the action's promise rejects with
  \<open>e\<close>, the first thing the wrapper does is to call \<open>transaction.abort()\<close> on the
  underlying transaction, in every state of the transaction. When the transaction is still live at that moment (the host
  has not reported it complete, and neither the action nor the host has aborted or
  committed it), the call succeeds, \<open>reject(e)\<close> follows it, and the promise of
  \<open>transaction()\<close> is rejected with \<open>e\<close>.
\<close>

theorem action_failure_aborts:
  assumes "IDBDatabase_transaction db (map name scope) m = None"
  shows "(\<exists>rest. transaction db scope m (pre @ ActionRejected e # post) =
                  transaction db scope m pre @ Abort # rest) \<and>
         (tx_status Live pre = Live \<longrightarrow>
            (\<exists>rest. transaction db scope m (pre @ ActionRejected e # post) =
                    transaction db scope m pre @ Abort # RejectWith e # rest) \<and>
            tx_promise (transaction db scope m (pre @ ActionRejected e # post)) = Rejected e)"
proof -
  let ?st = "\<lparr>actionCompleted = False, result = None\<rparr> :: 'a tx_state"
  from tx_run_append [of ?st Live pre "ActionRejected e # post"] obtain st' where
    split: "tx_run ?st Live (pre @ ActionRejected e # post) =
            tx_run ?st Live pre @ tx_run st' (tx_status Live pre) (ActionRejected e # post)"
    by blast
  have always: "\<exists>rest. transaction db scope m (pre @ ActionRejected e # post) =
                  transaction db scope m pre @ Abort # rest"
    using assms by (simp add: transaction_def split)
  have live: "(\<exists>rest. transaction db scope m (pre @ ActionRejected e # post) =
                    transaction db scope m pre @ Abort # RejectWith e # rest) \<and>
            tx_promise (transaction db scope m (pre @ ActionRejected e # post)) = Rejected e"
    if l: "tx_status Live pre = Live"
  proof -
    have p: "tx_promise (tx_run ?st Live pre) = Pending"
      using l by (rule tx_run_live_pending)
    show ?thesis
      using assms
      by (simp add: transaction_def split l IDBTransaction_abort_def tx_promise_append p)
  qed
  from always live show ?thesis by blast
qed

text \<open>Witness of C7: the action's promise rejects with \<open>boom\<close> on a live transaction.\<close>

theorem action_failure_aborts_witness:
  "IDBDatabase_transaction todo_db (map name [todo_store]) ReadWrite = None \<and>
   tx_status Live [ActionFulfilled (7::int)] = Live \<and>
   transaction todo_db [todo_store] ReadWrite
       ([ActionFulfilled (7::int)] @ ActionRejected (Error ''boom'') # [HostAborts]) =
     [DbTransaction [''todo-tasks''] ReadWrite, Abort, RejectWith (Error ''boom'')] \<and>
   tx_promise (transaction todo_db [todo_store] ReadWrite
       ([ActionFulfilled (7::int)] @ ActionRejected (Error ''boom'') # [HostAborts])) =
     Rejected (Error ''boom'')"
proof -
  have ok: "IDBDatabase_transaction todo_db (map name [todo_store]) ReadWrite = None"
    by (simp add: IDBDatabase_transaction_def todo_db_def todo_store_def)
  have l: "tx_status Live [ActionFulfilled (7::int)] = Live" by simp
  have t: "transaction todo_db [todo_store] ReadWrite
       ([ActionFulfilled (7::int)] @ ActionRejected (Error ''boom'') # [HostAborts]) =
     [DbTransaction [''todo-tasks''] ReadWrite, Abort, RejectWith (Error ''boom'')]"
    using ok by (simp add: transaction_def todo_store_def IDBTransaction_abort_def)
  from action_failure_aborts [OF ok, of "[ActionFulfilled 7]" "Error ''boom''" "[HostAborts]"] l
  have "tx_promise (transaction todo_db [todo_store] ReadWrite
       ([ActionFulfilled (7::int)] @ ActionRejected (Error ''boom'') # [HostAborts])) =
     Rejected (Error ''boom'')" by blast
  with ok l t show ?thesis by blast
qed

text \<open>On a transaction that is no longer live, \<open>abort()\<close> throws and \<open>reject(e)\<close> is not
  reached: an action that aborts its own transaction and then throws leaves the promise
  of \<open>transaction()\<close> pending.\<close>

lemma action_failure_after_own_abort:
  "transaction todo_db [todo_store] ReadWrite [ActionAborts, ActionRejected (Error ''boom'') :: int tx_event] =
     [DbTransaction [''todo-tasks''] ReadWrite, HandleAbort, Abort,
      Throws (DOMException ''InvalidStateError'')] \<and>
   tx_promise (transaction todo_db [todo_store] ReadWrite
     [ActionAborts, ActionRejected (Error ''boom'') :: int tx_event]) = Pending"
  by (simp add: transaction_def IDBDatabase_transaction_def todo_db_def todo_store_def
      IDBTransaction_abort_def)

lemma action_failure_on_dead_transaction:
  assumes "IDBDatabase_transaction db (map name scope) m = None" "tx_status Live pre \<noteq> Live"
  shows "\<exists>rest. transaction db scope m (pre @ ActionRejected e # post) =
           transaction db scope m pre @ Abort # Throws (DOMException ''InvalidStateError'') # rest"
proof -
  let ?st = "\<lparr>actionCompleted = False, result = None\<rparr> :: 'a tx_state"
  from tx_run_append [of ?st Live pre "ActionRejected e # post"] obtain st' where
    "tx_run ?st Live (pre @ ActionRejected e # post) =
            tx_run ?st Live pre @ tx_run st' (tx_status Live pre) (ActionRejected e # post)"
    by blast
  then show ?thesis
    using assms by (simp add: transaction_def IDBTransaction_abort_def)
qed

section \<open>Properties of \<open>DatabaseDef.open\<close>\<close>

lemma open_promise_unsettled:
  "\<not> list_ex settles_open pre \<Longrightarrow>
   open_promise (concat (map open_handlers pre) @ rest) =
     (if list_ex (\<lambda>ev. ev = Blocked) pre then Rejected (UpgradeAttemptBlockedError ''up'')
      else open_promise rest)"
proof (induction pre)
  case Nil
  then show ?case by simp
next
  case (Cons ev pre)
  then show ?case by (cases ev) (auto simp: settles_open_def)
qed

text \<open>
  C8. When the host fires \<open>blocked\<close> on the open request before it has fired \<open>success\<close> or
  \<open>error\<close> (the host fires \<open>blocked\<close> first, if at all), the promise of \<open>open()\<close> is
  rejected with \<open>UpgradeAttemptBlockedError\<close>, whatever the host fires afterwards: it is
  neither left pending nor rejected with a host error.
\<close>

theorem blocked_open_rejects:
  assumes "1 \<le> version" and "\<not> list_ex settles_open pre"
  shows "open_promise (DatabaseDef_open nm version (pre @ Blocked # post)) =
           Rejected (UpgradeAttemptBlockedError ''up'')"
  using assms open_promise_unsettled [of pre "concat (map open_handlers (Blocked # post))"]
  by (simp add: DatabaseDef_open_def open_with_def)

text \<open>Witness of C8: an upgrade from version 1 to 2, blocked and then carried out.\<close>

theorem blocked_open_rejects_witness:
  "(1::int) \<le> 2 \<and> \<not> list_ex settles_open [] \<and>
   open_promise (DatabaseDef_open ''todo-tasks-db'' 2 ([] @ Blocked # [UpgradeNeeded 1 (Some 2), Success])) =
     Rejected (UpgradeAttemptBlockedError ''up'')"
  using blocked_open_rejects [of 2 "[]" "''todo-tasks-db''" "[UpgradeNeeded 1 (Some 2), Success]"]
  by simp

text \<open>The earlier revision, with no \<open>onblocked\<close> handler, leaves the promise pending on a
  blocked event.\<close>

lemma blocked_open_earlier_revision:
  "open_promise (DatabaseDef_open_earlier ''todo-tasks-db'' 2 [Blocked]) = Pending"
  by (simp add: DatabaseDef_open_earlier_def open_with_def)

end
